theory Spec2Isabelle
  imports Main "HOL-Library.Code_Target_Nat"
begin

section \<open>JavaScript values used by github-storage.js\<close>

text \<open>
  A JavaScript string is a sequence of UTF-16 code units; each unit is a natural number
  below 65536.  String literals of the source that are plain ASCII are written with
  \<open>str\<close>; the Chinese message texts are spelled out by code unit.
\<close>

type_synonym jsstring = "nat list"

definition str :: "string \<Rightarrow> jsstring" where
  "str s = map of_char s"

text \<open>
  The values that \<open>JSON.parse\<close> produces and \<open>JSON.stringify\<close> consumes.  An object is
  the list of its own properties in enumeration order.  Numbers are IEEE doubles in
  JavaScript; the embedding keeps their type \<open>'n\<close> abstract and takes the four number
  operations of the engine that the module depends on as a parameter.
  \<open>undefined\<close> is not a JSON value: a value that may be undefined is an option.
\<close>

datatype 'n json =
    JNull
  | JBool bool
  | JNum 'n
  | JStr jsstring
  | JArr "'n json list"
  | JObj "(jsstring \<times> 'n json) list"

type_synonym 'n jsval = "'n json option"

record 'n engine =
  number_of_literal :: "jsstring \<Rightarrow> 'n"   \<comment> \<open>value of a JSON number token\<close>
  text_of_number :: "'n \<Rightarrow> jsstring"      \<comment> \<open>\<open>Number.prototype.toString\<close>\<close>
  number_finite :: "'n \<Rightarrow> bool"           \<comment> \<open>neither NaN nor an infinity\<close>
  number_truthy :: "'n \<Rightarrow> bool"           \<comment> \<open>neither zero nor NaN\<close>

datatype js_error =
    SyntaxError
  | TypeError
  | URIError
  | InvalidCharacterError
  | QuotaExceededError
  | Error jsstring

text \<open>Truthiness (\<open>ToBoolean\<close>), as used by \<open>&&\<close>, \<open>||\<close>, \<open>!\<close>, \<open>if\<close> and \<open>?:\<close>.\<close>

fun truthy :: "'n engine \<Rightarrow> 'n jsval \<Rightarrow> bool" where
  "truthy N None = False"
| "truthy N (Some JNull) = False"
| "truthy N (Some (JBool b)) = b"
| "truthy N (Some (JNum n)) = number_truthy N n"
| "truthy N (Some (JStr s)) = (s \<noteq> [])"
| "truthy N (Some (JArr vs)) = True"
| "truthy N (Some (JObj ms)) = True"

text \<open>
  Property read \<open>v.k\<close> for the names the module reads (\<open>username\<close>, \<open>repo\<close>, \<open>token\<close>,
  \<open>branch\<close>, \<open>content\<close>, \<open>sha\<close>, \<open>message\<close>): none of them is a built-in property of a string,
  array, number, boolean or plain object, so only an own property of an object is found.
  Reading a property of \<open>null\<close> throws a TypeError: \<open>get_prop\<close> is the read of a value
  that may be \<open>null\<close>, \<open>property\<close> the read of a value already known to be truthy.
\<close>

fun own_property :: "(jsstring \<times> 'n json) list \<Rightarrow> jsstring \<Rightarrow> 'n jsval" where
  "own_property [] k = None"
| "own_property ((k', v) # ms) k = (if k' = k then Some v else own_property ms k)"

fun property :: "'n json \<Rightarrow> jsstring \<Rightarrow> 'n jsval" where
  "property (JObj ms) k = own_property ms k"
| "property v k = None"

fun get_prop :: "'n json \<Rightarrow> jsstring \<Rightarrow> js_error + 'n jsval" where
  "get_prop JNull k = Inl TypeError"
| "get_prop v k = Inr (property v k)"

fun join :: "jsstring \<Rightarrow> jsstring list \<Rightarrow> jsstring" where
  "join sep [] = []"
| "join sep [x] = x"
| "join sep (x # y # ys) = x @ sep @ join sep (y # ys)"

text \<open>
  \<open>ToString\<close>, as applied by template literals, by \<open>atob\<close> to its argument and by the
  \<open>Error\<close> constructor to its message.  A plain object gives \<open>[object Object]\<close>, unless
  it has an own property named \<open>toString\<close>: after \<open>JSON.parse\<close> that property is never
  callable, and \<open>valueOf\<close> (own, or the inherited one, which returns the object) gives no
  primitive either, so the conversion throws a TypeError.  An array joins its elements
  with commas, \<open>null\<close> elements giving the empty string, and throws when the conversion
  of an element does.
\<close>

fun collect :: "(js_error + 'a) list \<Rightarrow> js_error + 'a list" where
  "collect [] = Inr []"
| "collect (x # xs) =
     (case x of
        Inl e \<Rightarrow> Inl e
      | Inr a \<Rightarrow> (case collect xs of Inl e \<Rightarrow> Inl e | Inr as \<Rightarrow> Inr (a # as)))"

fun ToString :: "'n engine \<Rightarrow> 'n json \<Rightarrow> js_error + jsstring" where
  "ToString N JNull = Inr (str ''null'')"
| "ToString N (JBool b) = Inr (if b then str ''true'' else str ''false'')"
| "ToString N (JNum n) = Inr (text_of_number N n)"
| "ToString N (JStr s) = Inr s"
| "ToString N (JArr vs) =
     (case collect (map (\<lambda>v. if v = JNull then Inr [] else ToString N v) vs) of
        Inl e \<Rightarrow> Inl e
      | Inr ss \<Rightarrow> Inr (join (str '','') ss))"
| "ToString N (JObj ms) =
     (case own_property ms (str ''toString'') of
        None \<Rightarrow> Inr (str ''[object Object]'')
      | Some f \<Rightarrow> Inl TypeError)"

definition ToString_val :: "'n engine \<Rightarrow> 'n jsval \<Rightarrow> js_error + jsstring" where
  "ToString_val N x = (case x of None \<Rightarrow> Inr (str ''undefined'') | Some v \<Rightarrow> ToString N v)"

function decimal :: "nat \<Rightarrow> jsstring" where
  "decimal n = (if n < 10 then [48 + n] else decimal (n div 10) @ [48 + n mod 10])"
  by pat_completeness auto
termination
  by (relation "measure id") auto

declare decimal.simps [simp del]

section \<open>JSON.stringify\<close>

definition is_lead :: "nat \<Rightarrow> bool" where
  "is_lead c = (0xD800 \<le> c \<and> c \<le> 0xDBFF)"

definition is_trail :: "nat \<Rightarrow> bool" where
  "is_trail c = (0xDC00 \<le> c \<and> c \<le> 0xDFFF)"

definition hex_lower :: "nat \<Rightarrow> nat" where
  "hex_lower d = (if d < 10 then 48 + d else 87 + d)"

definition unicode_escape :: "nat \<Rightarrow> jsstring" where
  "unicode_escape c =
     [0x5C, 0x75, hex_lower (c div 4096 mod 16), hex_lower (c div 256 mod 16),
      hex_lower (c div 16 mod 16), hex_lower (c mod 16)]"

text \<open>
  \<open>QuoteJSONString\<close> without the surrounding quotes: the two-character escapes, \<open>\uXXXX\<close>
  for the other control characters and for a surrogate that has no partner, and every
  other code unit as it is.
\<close>

fun quote_chars :: "jsstring \<Rightarrow> jsstring" where
  "quote_chars [] = []"
| "quote_chars [c] =
     (if c = 0x08 then [0x5C, 0x62]
      else if c = 0x09 then [0x5C, 0x74]
      else if c = 0x0A then [0x5C, 0x6E]
      else if c = 0x0C then [0x5C, 0x66]
      else if c = 0x0D then [0x5C, 0x72]
      else if c = 0x22 then [0x5C, 0x22]
      else if c = 0x5C then [0x5C, 0x5C]
      else if c < 0x20 \<or> is_lead c \<or> is_trail c then unicode_escape c
      else [c])"
| "quote_chars (c # d # ds) =
     (if is_lead c \<and> is_trail d then c # d # quote_chars ds
      else quote_chars [c] @ quote_chars (d # ds))"

definition QuoteJSONString :: "jsstring \<Rightarrow> jsstring" where
  "QuoteJSONString s = [0x22] @ quote_chars s @ [0x22]"

text \<open>
  \<open>SerializeJSONProperty\<close> with the gap string \<open>gap\<close> and the current indentation \<open>ind\<close>.
  A number that is not finite is written \<open>null\<close>.
\<close>

fun SerializeJSON :: "'n engine \<Rightarrow> jsstring \<Rightarrow> jsstring \<Rightarrow> 'n json \<Rightarrow> jsstring" where
  "SerializeJSON N gap ind JNull = str ''null''"
| "SerializeJSON N gap ind (JBool b) = (if b then str ''true'' else str ''false'')"
| "SerializeJSON N gap ind (JNum n) =
     (if number_finite N n then text_of_number N n else str ''null'')"
| "SerializeJSON N gap ind (JStr s) = QuoteJSONString s"
| "SerializeJSON N gap ind (JArr vs) =
     (if vs = [] then str ''[]''
      else if gap = [] then
        str ''['' @ join (str '','') (map (SerializeJSON N gap (ind @ gap)) vs) @ str '']''
      else
        str ''['' @ [0x0A] @ (ind @ gap)
          @ join (str '','' @ [0x0A] @ (ind @ gap)) (map (SerializeJSON N gap (ind @ gap)) vs)
          @ [0x0A] @ ind @ str '']'')"
| "SerializeJSON N gap ind (JObj ms) =
     (if ms = [] then str ''{}''
      else if gap = [] then
        str ''{'' @ join (str '','')
           (map (\<lambda>m. QuoteJSONString (fst m) @ str '':'' @ SerializeJSON N gap (ind @ gap) (snd m)) ms)
          @ str ''}''
      else
        str ''{'' @ [0x0A] @ (ind @ gap)
          @ join (str '','' @ [0x0A] @ (ind @ gap))
             (map (\<lambda>m. QuoteJSONString (fst m) @ str '': '' @ SerializeJSON N gap (ind @ gap) (snd m)) ms)
          @ [0x0A] @ ind @ str ''}'')"

text \<open>\<open>JSON.stringify(v)\<close> and \<open>JSON.stringify(v, null, 2)\<close>.\<close>

definition JSON_stringify :: "'n engine \<Rightarrow> 'n json \<Rightarrow> jsstring" where
  "JSON_stringify N v = SerializeJSON N [] [] v"

definition JSON_stringify2 :: "'n engine \<Rightarrow> 'n json \<Rightarrow> jsstring" where
  "JSON_stringify2 N v = SerializeJSON N (str ''  '') [] v"

section \<open>JSON.parse\<close>

text \<open>
  A recursive-descent reader of the JSON grammar.  The three mutually recursive
  functions take a step budget; \<open>JSON_parse\<close> supplies one that is larger than any text
  of the given length can use, and \<open>Exhausted\<close> keeps running out of budget apart from
  a syntax error.
\<close>

datatype 'a parsed = Parsed 'a jsstring | Malformed | Exhausted

definition and_then :: "'a parsed \<Rightarrow> ('a \<Rightarrow> jsstring \<Rightarrow> 'b parsed) \<Rightarrow> 'b parsed" where
  "and_then p f = (case p of Parsed a r \<Rightarrow> f a r | Malformed \<Rightarrow> Malformed | Exhausted \<Rightarrow> Exhausted)"

definition is_ws :: "nat \<Rightarrow> bool" where
  "is_ws c = (c = 0x20 \<or> c = 0x09 \<or> c = 0x0A \<or> c = 0x0D)"

definition skip_ws :: "jsstring \<Rightarrow> jsstring" where
  "skip_ws s = dropWhile is_ws s"

definition is_digit :: "nat \<Rightarrow> bool" where
  "is_digit c = (0x30 \<le> c \<and> c \<le> 0x39)"

definition hex_value :: "nat \<Rightarrow> nat option" where
  "hex_value c =
     (if 0x30 \<le> c \<and> c \<le> 0x39 then Some (c - 0x30)
      else if 0x41 \<le> c \<and> c \<le> 0x46 then Some (c - 0x37)
      else if 0x61 \<le> c \<and> c \<le> 0x66 then Some (c - 0x57)
      else None)"

definition hex4 :: "nat \<Rightarrow> nat \<Rightarrow> nat \<Rightarrow> nat \<Rightarrow> nat option" where
  "hex4 a b c d =
     (case (hex_value a, hex_value b, hex_value c, hex_value d) of
        (Some w, Some x, Some y, Some z) \<Rightarrow> Some (((w * 16 + x) * 16 + y) * 16 + z)
      | _ \<Rightarrow> None)"

definition escaped_char :: "nat \<Rightarrow> nat option" where
  "escaped_char e =
     (if e = 0x22 then Some 0x22
      else if e = 0x5C then Some 0x5C
      else if e = 0x2F then Some 0x2F
      else if e = 0x62 then Some 0x08
      else if e = 0x66 then Some 0x0C
      else if e = 0x6E then Some 0x0A
      else if e = 0x72 then Some 0x0D
      else if e = 0x74 then Some 0x09
      else None)"

definition cons_char :: "nat \<Rightarrow> (jsstring \<times> jsstring) option \<Rightarrow> (jsstring \<times> jsstring) option" where
  "cons_char c p = (case p of None \<Rightarrow> None | Some (s, r) \<Rightarrow> Some (c # s, r))"

text \<open>The characters of a string token after its opening quote, up to the closing one.\<close>

fun parse_chars :: "jsstring \<Rightarrow> (jsstring \<times> jsstring) option" where
  "parse_chars [] = None"
| "parse_chars (c # cs) =
     (if c = 0x22 then Some ([], cs)
      else if c = 0x5C then
        (case cs of
           [] \<Rightarrow> None
         | e # r \<Rightarrow>
             if e = 0x75 then
               (case r of
                  h1 # h2 # h3 # h4 # r' \<Rightarrow>
                    (case hex4 h1 h2 h3 h4 of
                       None \<Rightarrow> None
                     | Some u \<Rightarrow> cons_char u (parse_chars r'))
                | _ \<Rightarrow> None)
             else
               (case escaped_char e of
                  None \<Rightarrow> None
                | Some u \<Rightarrow> cons_char u (parse_chars r)))
      else if c < 0x20 then None
      else cons_char c (parse_chars cs))"

text \<open>
  A number token: \<open>-? (0 | [1-9][0-9]*) (. [0-9]+)? ([eE] [+-]? [0-9]+)?\<close>.  The result is
  the token and the rest of the input.
\<close>

definition scan_digits :: "jsstring \<Rightarrow> jsstring \<times> jsstring" where
  "scan_digits s = (takeWhile is_digit s, dropWhile is_digit s)"

definition scan_fraction :: "jsstring \<Rightarrow> (jsstring \<times> jsstring) option" where
  "scan_fraction s =
     (case s of
        [] \<Rightarrow> Some ([], [])
      | c # r \<Rightarrow>
          if c = 0x2E then
            (case scan_digits r of (ds, r') \<Rightarrow> if ds = [] then None else Some (c # ds, r'))
          else Some ([], s))"

definition scan_exponent :: "jsstring \<Rightarrow> (jsstring \<times> jsstring) option" where
  "scan_exponent s =
     (case s of
        [] \<Rightarrow> Some ([], [])
      | c # r \<Rightarrow>
          if c = 0x65 \<or> c = 0x45 then
            (case r of
               [] \<Rightarrow> None
             | g # r' \<Rightarrow>
                 if g = 0x2B \<or> g = 0x2D then
                   (case scan_digits r' of (ds, r'') \<Rightarrow>
                      if ds = [] then None else Some (c # g # ds, r''))
                 else
                   (case scan_digits r of (ds, r'') \<Rightarrow>
                      if ds = [] then None else Some (c # ds, r'')))
          else Some ([], s))"

definition scan_integer :: "jsstring \<Rightarrow> (jsstring \<times> jsstring) option" where
  "scan_integer s =
     (case scan_digits s of (ds, r) \<Rightarrow>
        if ds = [] then None
        else if hd ds = 0x30 \<and> tl ds \<noteq> [] then None
        else Some (ds, r))"

definition scan_number :: "jsstring \<Rightarrow> (jsstring \<times> jsstring) option" where
  "scan_number s =
     (case (case s of [] \<Rightarrow> ([], s) | c # r \<Rightarrow> if c = 0x2D then ([c], r) else ([], s)) of
        (sign, s1) \<Rightarrow>
          (case scan_integer s1 of
             None \<Rightarrow> None
           | Some (ds, s2) \<Rightarrow>
               (case scan_fraction s2 of
                  None \<Rightarrow> None
                | Some (fs, s3) \<Rightarrow>
                    (case scan_exponent s3 of
                       None \<Rightarrow> None
                     | Some (es, s4) \<Rightarrow> Some (sign @ ds @ fs @ es, s4)))))"

definition scan_word :: "jsstring \<Rightarrow> jsstring \<Rightarrow> jsstring option" where
  "scan_word w s = (if take (length w) s = w then Some (drop (length w) s) else None)"

text \<open>
  Own properties of an object enumerate array-index names first, in ascending numeric
  order, then the other names in creation order; defining a property that already exists
  replaces its value where it stands.  \<open>JSON.parse\<close> defines the members in source order.
\<close>

definition array_index :: "jsstring \<Rightarrow> nat option" where
  "array_index k =
     (if k \<noteq> [] \<and> list_all is_digit k \<and> (k = [0x30] \<or> hd k \<noteq> 0x30)
         \<and> foldl (\<lambda>a c. 10 * a + (c - 0x30)) 0 k < 4294967295
      then Some (foldl (\<lambda>a c. 10 * a + (c - 0x30)) 0 k) else None)"

fun replace_property :: "(jsstring \<times> 'n json) list \<Rightarrow> jsstring \<Rightarrow> 'n json \<Rightarrow> (jsstring \<times> 'n json) list" where
  "replace_property [] k v = []"
| "replace_property ((k', v') # ms) k v =
     (if k' = k then (k, v) # ms else (k', v') # replace_property ms k v)"

fun insert_index :: "(jsstring \<times> 'n json) list \<Rightarrow> nat \<Rightarrow> jsstring \<Rightarrow> 'n json \<Rightarrow> (jsstring \<times> 'n json) list" where
  "insert_index [] i k v = [(k, v)]"
| "insert_index ((k', v') # ms) i k v =
     (case array_index k' of
        Some j \<Rightarrow> if j < i then (k', v') # insert_index ms i k v else (k, v) # (k', v') # ms
      | None \<Rightarrow> (k, v) # (k', v') # ms)"

definition define_property :: "(jsstring \<times> 'n json) list \<Rightarrow> jsstring \<times> 'n json \<Rightarrow> (jsstring \<times> 'n json) list" where
  "define_property ms m =
     (if own_property ms (fst m) \<noteq> None then replace_property ms (fst m) (snd m)
      else case array_index (fst m) of
             Some i \<Rightarrow> insert_index ms i (fst m) (snd m)
           | None \<Rightarrow> ms @ [m])"

definition make_object :: "(jsstring \<times> 'n json) list \<Rightarrow> 'n json" where
  "make_object members = JObj (foldl define_property [] members)"

fun parse_value :: "'n engine \<Rightarrow> nat \<Rightarrow> jsstring \<Rightarrow> 'n json parsed"
  and parse_elements :: "'n engine \<Rightarrow> nat \<Rightarrow> jsstring \<Rightarrow> 'n json list parsed"
  and parse_members :: "'n engine \<Rightarrow> nat \<Rightarrow> jsstring \<Rightarrow> (jsstring \<times> 'n json) list parsed"
where
  "parse_value N 0 s = Exhausted"
| "parse_value N (Suc k) s =
     (case skip_ws s of
        [] \<Rightarrow> Malformed
      | c # cs \<Rightarrow>
          if c = 0x5B then
            (case skip_ws cs of
               [] \<Rightarrow> Malformed
             | d # r \<Rightarrow>
                 if d = 0x5D then Parsed (JArr []) r
                 else and_then (parse_elements N k cs) (\<lambda>vs r'. Parsed (JArr vs) r'))
          else if c = 0x7B then
            (case skip_ws cs of
               [] \<Rightarrow> Malformed
             | d # r \<Rightarrow>
                 if d = 0x7D then Parsed (JObj []) r
                 else and_then (parse_members N k cs) (\<lambda>ms r'. Parsed (make_object ms) r'))
          else if c = 0x22 then
            (case parse_chars cs of None \<Rightarrow> Malformed | Some (t, r) \<Rightarrow> Parsed (JStr t) r)
          else if c = 0x2D \<or> is_digit c then
            (case scan_number (c # cs) of
               None \<Rightarrow> Malformed
             | Some (t, r) \<Rightarrow> Parsed (JNum (number_of_literal N t)) r)
          else
            (case scan_word (str ''true'') (c # cs) of
               Some r \<Rightarrow> Parsed (JBool True) r
             | None \<Rightarrow>
                 (case scan_word (str ''false'') (c # cs) of
                    Some r \<Rightarrow> Parsed (JBool False) r
                  | None \<Rightarrow>
                      (case scan_word (str ''null'') (c # cs) of
                         Some r \<Rightarrow> Parsed JNull r
                       | None \<Rightarrow> Malformed))))"
| "parse_elements N 0 s = Exhausted"
| "parse_elements N (Suc k) s =
     and_then (parse_value N k s) (\<lambda>v r.
       case skip_ws r of
         [] \<Rightarrow> Malformed
       | c # r' \<Rightarrow>
           if c = 0x2C then and_then (parse_elements N k r') (\<lambda>vs r''. Parsed (v # vs) r'')
           else if c = 0x5D then Parsed [v] r'
           else Malformed)"
| "parse_members N 0 s = Exhausted"
| "parse_members N (Suc k) s =
     (case skip_ws s of
        [] \<Rightarrow> Malformed
      | q # cs \<Rightarrow>
          if q = 0x22 then
            (case parse_chars cs of
               None \<Rightarrow> Malformed
             | Some (key, r) \<Rightarrow>
                 (case skip_ws r of
                    [] \<Rightarrow> Malformed
                  | c # r1 \<Rightarrow>
                      if c = 0x3A then
                        and_then (parse_value N k r1) (\<lambda>v r2.
                          case skip_ws r2 of
                            [] \<Rightarrow> Malformed
                          | d # r3 \<Rightarrow>
                              if d = 0x2C then
                                and_then (parse_members N k r3) (\<lambda>ms r4. Parsed ((key, v) # ms) r4)
                              else if d = 0x7D then Parsed [(key, v)] r3
                              else Malformed)
                      else Malformed))
          else Malformed)"

text \<open>\<open>JSON.parse(s)\<close>: one value, surrounded by optional white space, or a SyntaxError.\<close>

definition JSON_parse :: "'n engine \<Rightarrow> jsstring \<Rightarrow> js_error + 'n json" where
  "JSON_parse N s =
     (case parse_value N (Suc (2 * length s)) s of
        Parsed v r \<Rightarrow> if skip_ws r = [] then Inr v else Inl SyntaxError
      | Malformed \<Rightarrow> Inl SyntaxError
      | Exhausted \<Rightarrow> Inl SyntaxError)"

text \<open>
  A parse result \<open>consumes\<close> an input when it did not run out of budget and, if it
  succeeded, left a strictly shorter rest.
\<close>

definition consumes :: "'a parsed \<Rightarrow> jsstring \<Rightarrow> bool" where
  "consumes p s = (case p of Parsed a r \<Rightarrow> length r < length s | Malformed \<Rightarrow> True | Exhausted \<Rightarrow> False)"

section \<open>Base64 and URI escaping\<close>

definition b64_char :: "nat \<Rightarrow> nat" where
  "b64_char n =
     (if n < 26 then 0x41 + n
      else if n < 52 then 0x61 + (n - 26)
      else if n < 62 then 0x30 + (n - 52)
      else if n = 62 then 0x2B
      else 0x2F)"

fun b64_encode :: "nat list \<Rightarrow> jsstring" where
  "b64_encode [] = []"
| "b64_encode [a] = [b64_char (a div 4), b64_char (a mod 4 * 16), 0x3D, 0x3D]"
| "b64_encode [a, b] =
     [b64_char (a div 4), b64_char (a mod 4 * 16 + b div 16), b64_char (b mod 16 * 4), 0x3D]"
| "b64_encode (a # b # c # r) =
     [b64_char (a div 4), b64_char (a mod 4 * 16 + b div 16),
      b64_char (b mod 16 * 4 + c div 64), b64_char (c mod 64)] @ b64_encode r"

text \<open>\<open>btoa\<close> throws when a code unit of its argument is above 255.\<close>

definition btoa :: "jsstring \<Rightarrow> js_error + jsstring" where
  "btoa s = (if list_all (\<lambda>c. c < 256) s then Inr (b64_encode s) else Inl InvalidCharacterError)"

definition b64_value :: "nat \<Rightarrow> nat option" where
  "b64_value c =
     (if 0x41 \<le> c \<and> c \<le> 0x5A then Some (c - 0x41)
      else if 0x61 \<le> c \<and> c \<le> 0x7A then Some (c - 0x61 + 26)
      else if 0x30 \<le> c \<and> c \<le> 0x39 then Some (c - 0x30 + 52)
      else if c = 0x2B then Some 62
      else if c = 0x2F then Some 63
      else None)"

fun b64_decode :: "nat list \<Rightarrow> jsstring" where
  "b64_decode (a # b # c # d # r) =
     [a * 4 + b div 16, b mod 16 * 16 + c div 4, c mod 4 * 64 + d] @ b64_decode r"
| "b64_decode [a, b, c] = [a * 4 + b div 16, b mod 16 * 16 + c div 4]"
| "b64_decode [a, b] = [a * 4 + b div 16]"
| "b64_decode r = []"

definition is_ascii_ws :: "nat \<Rightarrow> bool" where
  "is_ascii_ws c = (c = 0x09 \<or> c = 0x0A \<or> c = 0x0C \<or> c = 0x0D \<or> c = 0x20)"

definition strip_padding :: "jsstring \<Rightarrow> jsstring" where
  "strip_padding s =
     (if length s mod 4 = 0 \<and> s \<noteq> [] \<and> last s = 0x3D then
        (if butlast s \<noteq> [] \<and> last (butlast s) = 0x3D then butlast (butlast s) else butlast s)
      else s)"

text \<open>
  \<open>atob\<close> is the forgiving Base64 decoder of the HTML standard: white space is dropped,
  one or two padding characters are removed from a text whose length is a multiple of
  four, and a length of 1 modulo 4 or a character outside the alphabet throws.
\<close>

definition atob :: "jsstring \<Rightarrow> js_error + jsstring" where
  "atob s =
     (let d = strip_padding (filter (\<lambda>c. \<not> is_ascii_ws c) s) in
      if length d mod 4 = 1 then Inl InvalidCharacterError
      else case those (map b64_value d) of
             None \<Rightarrow> Inl InvalidCharacterError
           | Some vs \<Rightarrow> Inr (b64_decode vs))"

definition unreserved :: "nat \<Rightarrow> bool" where
  "unreserved c =
     ((0x41 \<le> c \<and> c \<le> 0x5A) \<or> (0x61 \<le> c \<and> c \<le> 0x7A) \<or> (0x30 \<le> c \<and> c \<le> 0x39)
      \<or> c \<in> set (str ''-_.!~*'' @ [0x27] @ str ''()''))"

definition hex_upper :: "nat \<Rightarrow> nat" where
  "hex_upper d = (if d < 10 then 48 + d else 55 + d)"

definition percent :: "nat \<Rightarrow> jsstring" where
  "percent b = [0x25, hex_upper (b div 16), hex_upper (b mod 16)]"

text \<open>The UTF-8 bytes of a code point.\<close>

definition utf8 :: "nat \<Rightarrow> nat list" where
  "utf8 cp =
     (if cp < 0x80 then [cp]
      else if cp < 0x800 then [0xC0 + cp div 64, 0x80 + cp mod 64]
      else if cp < 0x10000 then [0xE0 + cp div 4096, 0x80 + cp div 64 mod 64, 0x80 + cp mod 64]
      else [0xF0 + cp div 262144, 0x80 + cp div 4096 mod 64, 0x80 + cp div 64 mod 64,
            0x80 + cp mod 64])"

definition prepend :: "jsstring \<Rightarrow> js_error + jsstring \<Rightarrow> js_error + jsstring" where
  "prepend p r = (case r of Inl e \<Rightarrow> Inl e | Inr t \<Rightarrow> Inr (p @ t))"

text \<open>
  \<open>encodeURIComponent\<close>: an unreserved character stays, every other code point becomes
  the \<open>%XX\<close> escapes of its UTF-8 bytes, and a surrogate without its partner throws a
  URIError.
\<close>

fun encodeURIComponent :: "jsstring \<Rightarrow> js_error + jsstring" where
  "encodeURIComponent [] = Inr []"
| "encodeURIComponent (c # cs) =
     (if is_trail c then Inl URIError
      else if is_lead c then
        (case cs of
           [] \<Rightarrow> Inl URIError
         | d # ds \<Rightarrow>
             if is_trail d then
               prepend (concat (map percent (utf8 (0x10000 + (c - 0xD800) * 0x400 + (d - 0xDC00)))))
                 (encodeURIComponent ds)
             else Inl URIError)
      else if unreserved c then prepend [c] (encodeURIComponent cs)
      else prepend (concat (map percent (utf8 c))) (encodeURIComponent cs))"

text \<open>
  \<open>unescape\<close>: \<open>%uXXXX\<close> and \<open>%XX\<close> with hexadecimal digits become the code unit they
  name; everything else stays.
\<close>

definition escape_u :: "jsstring \<Rightarrow> nat option" where
  "escape_u cs =
     (case cs of
        u # h1 # h2 # h3 # h4 # r \<Rightarrow> if u = 0x75 then hex4 h1 h2 h3 h4 else None
      | _ \<Rightarrow> None)"

definition escape_x :: "jsstring \<Rightarrow> nat option" where
  "escape_x cs =
     (case cs of
        h1 # h2 # r \<Rightarrow>
          (case (hex_value h1, hex_value h2) of (Some a, Some b) \<Rightarrow> Some (a * 16 + b) | _ \<Rightarrow> None)
      | _ \<Rightarrow> None)"

fun unescape :: "jsstring \<Rightarrow> jsstring" where
  "unescape [] = []"
| "unescape (c # cs) =
     (if c = 0x25 then
        (case escape_u cs of
           Some v \<Rightarrow> v # unescape (drop 5 cs)
         | None \<Rightarrow>
             (case escape_x cs of
                Some v \<Rightarrow> v # unescape (drop 2 cs)
              | None \<Rightarrow> c # unescape cs))
      else c # unescape cs)"

text \<open>
  Texts that \<open>encodeURIComponent\<close> accepts: every code unit is below 65536 and no
  surrogate stands without its partner.  \<open>json_ok\<close> says that the strings and property
  names of a value are made of code units, \<open>number_text_ok\<close> that the engine writes
  numbers in ASCII.
\<close>

fun well_formed :: "jsstring \<Rightarrow> bool" where
  "well_formed [] = True"
| "well_formed (c # cs) =
     (if is_trail c then False
      else if is_lead c then (case cs of [] \<Rightarrow> False | d # ds \<Rightarrow> is_trail d \<and> well_formed ds)
      else well_formed cs)"

definition encodable :: "jsstring \<Rightarrow> bool" where
  "encodable s = (well_formed s \<and> (\<forall>c \<in> set s. c < 0x10000))"

fun json_ok :: "'n json \<Rightarrow> bool" where
  "json_ok (JStr s) = (\<forall>c \<in> set s. c < 0x10000)"
| "json_ok (JArr vs) = (\<forall>v \<in> set vs. json_ok v)"
| "json_ok (JObj ms) = (\<forall>m \<in> set ms. (\<forall>c \<in> set (fst m). c < 0x10000) \<and> json_ok (snd m))"
| "json_ok v = True"

definition number_text_ok :: "'n engine \<Rightarrow> bool" where
  "number_text_ok N = (\<forall>n. \<forall>c \<in> set (text_of_number N n). c < 0x80)"

section \<open>The environment of the adapter\<close>

text \<open>
  The browser and the network, as far as \<open>GitHubStorage\<close> sees them.  A \<open>fetch\<close> either
  rejects or resolves to a response, of which the module reads the status and the result
  of \<open>response.json()\<close>.  \<open>localStorage.setItem\<close> throws a QuotaExceededError when the store
  has no room for the write; \<open>localStorage.getItem\<close> is taken not to throw.  \<open>clock\<close> is
  the text of \<open>new Date().toLocaleString('zh-CN')\<close>.
\<close>

datatype http_method = GET | PUT

record request =
  request_method :: http_method
  url :: jsstring
  headers :: "(jsstring \<times> jsstring) list"
  body :: "jsstring option"

datatype 'n outcome =
    Rejected js_error
  | Response nat "js_error + 'n json"

definition ok :: "nat \<Rightarrow> bool" where
  "ok status = (200 \<le> status \<and> status \<le> 299)"

record 'n world =
  engine :: "'n engine"
  server :: "request \<Rightarrow> 'n outcome"
  has_room :: "(jsstring \<rightharpoonup> jsstring) \<Rightarrow> jsstring \<Rightarrow> jsstring \<Rightarrow> bool"
  clock :: jsstring

text \<open>
  What a call does besides returning: console output, the blocking \<open>alert\<close> (with the
  error whose message it shows), requests sent, and reads and writes of local storage.
\<close>

datatype event =
    ConsoleLog
  | ConsoleWarn
  | ConsoleError
  | Alert js_error
  | Fetch request
  | GetItem jsstring
  | SetItem jsstring jsstring

text \<open>The \<open>GitHubStorage\<close> object (its field \<open>config\<close>), local storage, and the effects so far.\<close>

record 'n state =
  config :: "'n json"
  localStorage :: "jsstring \<rightharpoonup> jsstring"
  trace :: "event list"

definition emit :: "event \<Rightarrow> 'n state \<Rightarrow> 'n state" where
  "emit e st = st\<lparr>trace := trace st @ [e]\<rparr>"

definition getItem :: "jsstring \<Rightarrow> 'n state \<Rightarrow> jsstring option \<times> 'n state" where
  "getItem k st = (localStorage st k, emit (GetItem k) st)"

definition setItem :: "'n world \<Rightarrow> jsstring \<Rightarrow> jsstring \<Rightarrow> 'n state \<Rightarrow> (js_error + unit) \<times> 'n state" where
  "setItem W k v st =
     (if has_room W (localStorage st) k v
      then (Inr (), emit (SetItem k v) (st\<lparr>localStorage := (localStorage st)(k \<mapsto> v)\<rparr>))
      else (Inl QuotaExceededError, emit (SetItem k v) st))"

definition fetch :: "'n world \<Rightarrow> request \<Rightarrow> 'n state \<Rightarrow> 'n outcome \<times> 'n state" where
  "fetch W req st = (server W req, emit (Fetch req) st)"

section \<open>class GitHubStorage\<close>

definition CONFIG_KEY :: jsstring where
  "CONFIG_KEY = str ''github_config''"

definition DATA_PATH :: jsstring where
  "DATA_PATH = str ''data/logs.json''"

definition LOGS_KEY :: jsstring where
  "LOGS_KEY = str ''updateLogs''"

definition not_configured_message :: jsstring where
  "not_configured_message = str ''GitHub '' @ [0x672A, 0x914D, 0x7F6E]"

definition configure_first_message :: jsstring where
  "configure_first_message =
     [0x8BF7, 0x5148, 0x914D, 0x7F6E] @ str '' GitHub '' @ [0x8FDE, 0x63A5]"

definition api_error_message :: jsstring where
  "api_error_message = str ''GitHub API '' @ [0x9519, 0x8BEF]"

definition commit_message_prefix :: jsstring where
  "commit_message_prefix = [0x66F4, 0x65B0, 0x65E5, 0x5FD7, 0x6570, 0x636E] @ str '' - ''"

text \<open>
  \<open>loadConfig\<close>: the stored text is parsed when it is a non-empty string; a parse error is
  logged and the configuration stays as it was.
\<close>

definition loadConfig :: "'n world \<Rightarrow> 'n state \<Rightarrow> bool \<times> 'n state" where
  "loadConfig W st =
     (case getItem CONFIG_KEY st of (configStr, st1) \<Rightarrow>
        (case configStr of
           None \<Rightarrow> (False, st1)
         | Some s \<Rightarrow>
             if s = [] then (False, st1)
             else (case JSON_parse (engine W) s of
                     Inr v \<Rightarrow> (True, st1\<lparr>config := v\<rparr>)
                   | Inl e \<Rightarrow> (False, emit ConsoleError st1))))"

text \<open>The constructor: \<open>config\<close> starts as \<open>null\<close>, then \<open>loadConfig\<close> runs.\<close>

definition new_GitHubStorage :: "'n world \<Rightarrow> (jsstring \<rightharpoonup> jsstring) \<Rightarrow> 'n state" where
  "new_GitHubStorage W store =
     snd (loadConfig W \<lparr>config = JNull, localStorage = store, trace = []\<rparr>)"

text \<open>
  \<open>isConfigured\<close> returns the value of the \<open>&&\<close> chain: the first operand that is not
  truthy, or the token.  Every caller tests it for truthiness.
\<close>

definition isConfigured :: "'n engine \<Rightarrow> 'n state \<Rightarrow> 'n jsval" where
  "isConfigured N st =
     (if \<not> truthy N (Some (config st)) then Some (config st)
      else if \<not> truthy N (property (config st) (str ''username''))
        then property (config st) (str ''username'')
      else if \<not> truthy N (property (config st) (str ''repo''))
        then property (config st) (str ''repo'')
      else property (config st) (str ''token''))"

text \<open>
  \<open>getApiUrl\<close> and \<open>getHeaders\<close> throw the not-configured error in an unconfigured state;
  in a configured one their template literals convert the fields to strings, which
  throws a TypeError for a field that has no string conversion.
\<close>

definition getApiUrl :: "'n engine \<Rightarrow> 'n state \<Rightarrow> js_error + jsstring" where
  "getApiUrl N st =
     (if \<not> truthy N (isConfigured N st) then Inl (Error not_configured_message)
      else (case ToString_val N (property (config st) (str ''username'')) of
              Inl e \<Rightarrow> Inl e
            | Inr username \<Rightarrow>
           (case ToString_val N (property (config st) (str ''repo'')) of
              Inl e \<Rightarrow> Inl e
            | Inr repo \<Rightarrow>
                Inr (str ''https://api.github.com/repos/'' @ username @ str ''/'' @ repo
                       @ str ''/contents/'' @ DATA_PATH))))"

definition getHeaders :: "'n engine \<Rightarrow> 'n state \<Rightarrow> js_error + (jsstring \<times> jsstring) list" where
  "getHeaders N st =
     (if \<not> truthy N (isConfigured N st) then Inl (Error not_configured_message)
      else (case ToString_val N (property (config st) (str ''token'')) of
              Inl e \<Rightarrow> Inl e
            | Inr token \<Rightarrow>
                Inr [(str ''Authorization'', str ''token '' @ token),
                     (str ''Accept'', str ''application/vnd.github.v3+json''),
                     (str ''Content-Type'', str ''application/json'')]))"

text \<open>
  \<open>loadLogsFromLocal\<close>: the cached text is parsed when it is a non-empty string; the parse
  is not guarded, so a SyntaxError leaves the function.
\<close>

definition loadLogsFromLocal :: "'n engine \<Rightarrow> 'n state \<Rightarrow> (js_error + 'n json) \<times> 'n state" where
  "loadLogsFromLocal N st =
     (case getItem LOGS_KEY st of (data, st1) \<Rightarrow>
        (case data of
           None \<Rightarrow> (Inr (JArr []), st1)
         | Some s \<Rightarrow> if s = [] then (Inr (JArr []), st1) else (JSON_parse N s, st1)))"

text \<open>\<open>saveLogsToLocal\<close>: a failed write is logged and reported as \<open>false\<close>.\<close>

definition saveLogsToLocal :: "'n world \<Rightarrow> 'n json \<Rightarrow> 'n state \<Rightarrow> bool \<times> 'n state" where
  "saveLogsToLocal W logs st =
     (case setItem W LOGS_KEY (JSON_stringify (engine W) logs) st of
        (Inr u, st1) \<Rightarrow> (True, st1)
      | (Inl e, st1) \<Rightarrow> (False, emit ConsoleError st1))"

text \<open>The \<open>try\<close> block of \<open>loadLogs\<close> (lines 72 to 96); \<open>Inl\<close> is what its \<open>catch\<close> receives.\<close>

definition loadLogs_try :: "'n world \<Rightarrow> 'n state \<Rightarrow> (js_error + 'n json) \<times> 'n state" where
  "loadLogs_try W st =
     (case getApiUrl (engine W) st of
        Inl e \<Rightarrow> (Inl e, st)
      | Inr u \<Rightarrow>
     (case getHeaders (engine W) st of
        Inl e \<Rightarrow> (Inl e, st)
      | Inr h \<Rightarrow>
     (case fetch W \<lparr>request_method = GET, url = u, headers = h, body = None\<rparr> st of
        (Rejected e, st1) \<Rightarrow> (Inl e, st1)
      | (Response status payload, st1) \<Rightarrow>
          if status = 404 then (Inr (JArr []), emit ConsoleLog st1)
          else if \<not> ok status then
            (Inl (Error (api_error_message @ str '': '' @ decimal status)), st1)
          else
            (case payload of
               Inl e \<Rightarrow> (Inl e, st1)
             | Inr data \<Rightarrow>
            (case get_prop data (str ''content'') of
               Inl e \<Rightarrow> (Inl e, st1)
             | Inr c \<Rightarrow>
            (case ToString_val (engine W) c of
               Inl e \<Rightarrow> (Inl e, st1)
             | Inr encoded \<Rightarrow>
            (case atob encoded of
               Inl e \<Rightarrow> (Inl e, st1)
             | Inr content \<Rightarrow>
            (case JSON_parse (engine W) content of
               Inl e \<Rightarrow> (Inl e, st1)
             | Inr logs \<Rightarrow>
                 (case saveLogsToLocal W logs st1 of (b, st2) \<Rightarrow> (Inr logs, st2))))))))))"

definition loadLogs :: "'n world \<Rightarrow> 'n state \<Rightarrow> (js_error + 'n json) \<times> 'n state" where
  "loadLogs W st =
     (if \<not> truthy (engine W) (isConfigured (engine W) st)
      then loadLogsFromLocal (engine W) (emit ConsoleWarn st)
      else (case loadLogs_try W st of
              (Inr logs, st1) \<Rightarrow> (Inr logs, st1)
            | (Inl e, st1) \<Rightarrow>
                loadLogsFromLocal (engine W) (emit ConsoleLog (emit ConsoleError st1))))"

text \<open>
  The inner \<open>try\<close> of \<open>saveLogs\<close> (lines 115 to 128): the revision identifier of the
  remote file, \<open>null\<close> when it could not be read.
\<close>

definition saveLogs_sha :: "'n world \<Rightarrow> 'n state \<Rightarrow> 'n jsval \<times> 'n state" where
  "saveLogs_sha W st =
     (case getApiUrl (engine W) st of
        Inl e \<Rightarrow> (Some JNull, emit ConsoleLog st)
      | Inr u \<Rightarrow>
     (case getHeaders (engine W) st of
        Inl e \<Rightarrow> (Some JNull, emit ConsoleLog st)
      | Inr h \<Rightarrow>
     (case fetch W \<lparr>request_method = GET, url = u, headers = h, body = None\<rparr> st of
        (Rejected e, st1) \<Rightarrow> (Some JNull, emit ConsoleLog st1)
      | (Response status payload, st1) \<Rightarrow>
          if ok status then
            (case payload of
               Inl e \<Rightarrow> (Some JNull, emit ConsoleLog st1)
             | Inr fileData \<Rightarrow>
                 (case get_prop fileData (str ''sha'') of
                    Inl e \<Rightarrow> (Some JNull, emit ConsoleLog st1)
                  | Inr v \<Rightarrow> (v, st1)))
          else (Some JNull, st1))))"

text \<open>Lines 131 and 132: the pretty-printed JSON text, as UTF-8 bytes, in Base64.\<close>

definition encodedContent :: "'n engine \<Rightarrow> 'n json \<Rightarrow> js_error + jsstring" where
  "encodedContent N logs =
     (case encodeURIComponent (JSON_stringify2 N logs) of
        Inl e \<Rightarrow> Inl e
      | Inr escaped \<Rightarrow> btoa (unescape escaped))"

text \<open>Lines 134 to 143: the body of the update request.\<close>

definition requestBody :: "'n world \<Rightarrow> 'n state \<Rightarrow> 'n jsval \<Rightarrow> jsstring \<Rightarrow> 'n json" where
  "requestBody W st sha encoded =
     JObj ([(str ''message'', JStr (commit_message_prefix @ clock W)),
            (str ''content'', JStr encoded),
            (str ''branch'',
               (case property (config st) (str ''branch'') of
                  None \<Rightarrow> JStr (str ''main'')
                | Some b \<Rightarrow> if truthy (engine W) (Some b) then b else JStr (str ''main'')))]
           @ (case sha of
                None \<Rightarrow> []
              | Some v \<Rightarrow> if truthy (engine W) (Some v) then [(str ''sha'', v)] else []))"

definition put_request :: "'n world \<Rightarrow> 'n state \<Rightarrow> 'n jsval \<Rightarrow> jsstring \<Rightarrow> js_error + request" where
  "put_request W st sha encoded =
     (case getApiUrl (engine W) st of
        Inl e \<Rightarrow> Inl e
      | Inr u \<Rightarrow>
     (case getHeaders (engine W) st of
        Inl e \<Rightarrow> Inl e
      | Inr h \<Rightarrow>
          Inr \<lparr>request_method = PUT, url = u, headers = h,
               body = Some (JSON_stringify (engine W) (requestBody W st sha encoded))\<rparr>))"

text \<open>The outer \<open>try\<close> block of \<open>saveLogs\<close> (lines 114 to 161).\<close>

definition saveLogs_try :: "'n world \<Rightarrow> 'n json \<Rightarrow> 'n state \<Rightarrow> (js_error + bool) \<times> 'n state" where
  "saveLogs_try W logs st =
     (case saveLogs_sha W st of (sha, st1) \<Rightarrow>
     (case encodedContent (engine W) logs of
        Inl e \<Rightarrow> (Inl e, st1)
      | Inr encoded \<Rightarrow>
     (case put_request W st1 sha encoded of
        Inl e \<Rightarrow> (Inl e, st1)
      | Inr req \<Rightarrow>
     (case fetch W req st1 of
        (Rejected e, st2) \<Rightarrow> (Inl e, st2)
      | (Response status payload, st2) \<Rightarrow>
          if \<not> ok status then
            (case payload of
               Inl e \<Rightarrow> (Inl e, st2)
             | Inr errorData \<Rightarrow>
                 (case get_prop errorData (str ''message'') of
                    Inl e \<Rightarrow> (Inl e, st2)
                  | Inr m \<Rightarrow>
                      if truthy (engine W) m then
                        (case ToString_val (engine W) m of
                           Inl e \<Rightarrow> (Inl e, st2)
                         | Inr text \<Rightarrow> (Inl (Error text), st2))
                      else (Inl (Error api_error_message), st2)))
          else
            (case saveLogsToLocal W logs st2 of (b, st3) \<Rightarrow> (Inr True, emit ConsoleLog st3))))))"

definition saveLogs :: "'n world \<Rightarrow> 'n json \<Rightarrow> 'n state \<Rightarrow> bool \<times> 'n state" where
  "saveLogs W logs st =
     (if \<not> truthy (engine W) (isConfigured (engine W) st)
      then saveLogsToLocal W logs (emit ConsoleWarn st)
      else (case saveLogs_try W logs st of
              (Inr b, st1) \<Rightarrow> (b, st1)
            | (Inl e, st1) \<Rightarrow>
                (case saveLogsToLocal W logs (emit (Alert e) (emit ConsoleError st1)) of
                   (b, st2) \<Rightarrow> (False, st2))))"

definition syncFromGitHub :: "'n world \<Rightarrow> 'n state \<Rightarrow> (js_error + 'n json) \<times> 'n state" where
  "syncFromGitHub W st =
     (if \<not> truthy (engine W) (isConfigured (engine W) st)
      then (Inl (Error configure_first_message), st)
      else loadLogs W st)"

definition syncToGitHub :: "'n world \<Rightarrow> 'n state \<Rightarrow> (js_error + bool) \<times> 'n state" where
  "syncToGitHub W st =
     (if \<not> truthy (engine W) (isConfigured (engine W) st)
      then (Inl (Error configure_first_message), st)
      else (case loadLogsFromLocal (engine W) st of
              (Inl e, st1) \<Rightarrow> (Inl e, st1)
            | (Inr logs, st1) \<Rightarrow>
                (case saveLogs W logs st1 of (b, st2) \<Rightarrow> (Inr b, st2))))"

text \<open>The number of alerts among some events.\<close>

fun is_alert :: "event \<Rightarrow> bool" where
  "is_alert (Alert e) = True"
| "is_alert ev = False"

definition alerts :: "event list \<Rightarrow> nat" where
  "alerts evs = length (filter is_alert evs)"

section \<open>Concrete environments\<close>

text \<open>
  An engine whose numbers are the natural numbers, a configuration with all three
  fields, and the collection \<open>[{"text":"\<dots>"}]\<close> whose text is the two characters U+65E5
  and U+5FD7.  None of the concrete runs below contains a number.
\<close>

definition sample_engine :: "nat engine" where
  "sample_engine =
     \<lparr>number_of_literal = (\<lambda>t. foldl (\<lambda>a c. 10 * a + (c - 0x30)) 0 t),
      text_of_number = decimal,
      number_finite = (\<lambda>n. True),
      number_truthy = (\<lambda>n. n \<noteq> 0)\<rparr>"

definition sample_config :: "nat json" where
  "sample_config =
     JObj [(str ''username'', JStr (str ''octo'')), (str ''repo'', JStr (str ''logs'')),
           (str ''token'', JStr (str ''ghp_1''))]"

text \<open>
  A configuration that \<open>JSON.parse\<close> can produce and that counts as configured, whose
  \<open>username\<close> is an object with an own property \<open>toString\<close>: it has no string conversion.
\<close>

definition awkward_config :: "nat json" where
  "awkward_config =
     JObj [(str ''username'', JObj [(str ''toString'', JStr (str ''octo''))]),
           (str ''repo'', JStr (str ''logs'')), (str ''token'', JStr (str ''ghp_1''))]"

definition sample_logs :: "nat json" where
  "sample_logs = JArr [JObj [(str ''text'', JStr [0x65E5, 0x5FD7])]]"

definition sample_url :: jsstring where
  "sample_url = str ''https://api.github.com/repos/octo/logs/contents/data/logs.json''"

definition sample_headers :: "(jsstring \<times> jsstring) list" where
  "sample_headers =
     [(str ''Authorization'', str ''token ghp_1''),
      (str ''Accept'', str ''application/vnd.github.v3+json''),
      (str ''Content-Type'', str ''application/json'')]"

definition sample_world :: "(request \<Rightarrow> nat outcome) \<Rightarrow> bool \<Rightarrow> nat world" where
  "sample_world srv room =
     \<lparr>engine = sample_engine, server = srv, has_room = (\<lambda>m k v. room),
      clock = str ''2026/11/2 10:00:00''\<rparr>"

definition sample_state :: "nat json \<Rightarrow> (jsstring \<rightharpoonup> jsstring) \<Rightarrow> nat state" where
  "sample_state c m = \<lparr>config = c, localStorage = m, trace = []\<rparr>"

text \<open>A remote without the file that accepts the update, one that refuses it, one that
  has no file, one whose reads fail while its updates succeed, and one that cannot be
  reached.\<close>

definition creating_server :: "request \<Rightarrow> nat outcome" where
  "creating_server req =
     (if request_method req = GET then Response 404 (Inr (JObj [(str ''message'', JStr (str ''Not Found''))]))
      else Response 201 (Inr (JObj [])))"

definition refusing_server :: "request \<Rightarrow> nat outcome" where
  "refusing_server req =
     (if request_method req = GET then Response 404 (Inr (JObj [(str ''message'', JStr (str ''Not Found''))]))
      else Response 500 (Inr (JObj [(str ''message'', JStr (str ''Server Error''))])))"

definition missing_server :: "request \<Rightarrow> nat outcome" where
  "missing_server req = Response 404 (Inr (JObj [(str ''message'', JStr (str ''Not Found''))]))"

definition flaky_server :: "request \<Rightarrow> nat outcome" where
  "flaky_server req =
     (if request_method req = GET then Rejected TypeError else Response 200 (Inr (JObj [])))"

definition unreachable_server :: "request \<Rightarrow> nat outcome" where
  "unreachable_server req = Rejected TypeError"

text \<open>
  The remote store of the round trip: \<open>written_content\<close> is the \<open>content\<close> field of the
  body of the last update request among some events, and \<open>file_server\<close> answers every
  read with exactly that content.
\<close>

fun last_put_body :: "event list \<Rightarrow> jsstring option" where
  "last_put_body [] = None"
| "last_put_body (ev # evs) =
     (case last_put_body evs of
        Some b \<Rightarrow> Some b
      | None \<Rightarrow> (case ev of Fetch req \<Rightarrow> if request_method req = PUT then body req else None | _ \<Rightarrow> None))"

definition written_content :: "'n engine \<Rightarrow> event list \<Rightarrow> 'n jsval" where
  "written_content N evs =
     (case last_put_body evs of
        None \<Rightarrow> None
      | Some b \<Rightarrow> (case JSON_parse N b of Inl e \<Rightarrow> None | Inr v \<Rightarrow> property v (str ''content'')))"

definition file_server :: "'n jsval \<Rightarrow> request \<Rightarrow> 'n outcome" where
  "file_server c req =
     (case c of
        None \<Rightarrow> Response 404 (Inr (JObj [(str ''message'', JStr (str ''Not Found''))]))
      | Some v \<Rightarrow> Response 200 (Inr (JObj [(str ''content'', v), (str ''sha'', JStr (str ''3b18e5''))])))"

section \<open>Facts about the helpers\<close>

subsection \<open>The step budget of the JSON reader is never used up\<close>

text \<open>
  Every successful scan leaves a strictly shorter rest, so a budget above twice the
  length of the input is enough: \<open>JSON_parse\<close> never meets \<open>Exhausted\<close>, and its
  SyntaxError always is a syntax error.
\<close>

lemma skip_ws_length: "length (skip_ws s) \<le> length s"
  by (simp add: skip_ws_def length_dropWhile_le)

lemma cons_char_Some: "cons_char c p = Some (t, r) \<Longrightarrow> \<exists>t'. p = Some (t', r)"
  by (auto simp: cons_char_def split: option.splits)

lemma parse_chars_shorter: "parse_chars cs = Some (t, r) \<Longrightarrow> length r < length cs"
proof (induction cs arbitrary: t r rule: parse_chars.induct)
  case 1
  then show ?case by simp
next
  case (2 c cs)
  show ?case
  proof (cases "c = 0x22")
    case True
    with "2.prems" show ?thesis by simp
  next
    case nq: False
    show ?thesis
    proof (cases "c = 0x5C")
      case False
      with nq "2.prems" obtain t' where "parse_chars cs = Some (t', r)"
        by (auto split: if_splits dest: cons_char_Some)
      with "2.IH"(3) [OF nq False] nq False "2.prems" show ?thesis
        by (auto split: if_splits)
    next
      case True
      with nq "2.prems" obtain e r0 where cs: "cs = e # r0" by (cases cs) auto
      show ?thesis
      proof (cases "e = 0x75")
        case False
        with True nq cs "2.prems" obtain u t' where
          "escaped_char e = Some u" "parse_chars r0 = Some (t', r)"
          by (auto split: option.splits dest: cons_char_Some)
        with "2.IH"(2) [OF nq True cs False] cs show ?thesis by fastforce
      next
        case u: True
        with True nq cs "2.prems" obtain h1 h2 h3 h4 r' where r0: "r0 = h1 # h2 # h3 # h4 # r'"
          by (auto split: list.splits)
        with u True nq cs "2.prems" obtain v t' where
          "hex4 h1 h2 h3 h4 = Some v" "parse_chars r' = Some (t', r)"
          by (auto split: option.splits dest: cons_char_Some)
        with "2.IH"(1) [OF nq True cs u r0] cs r0 show ?thesis by fastforce
      qed
    qed
  qed
qed

lemma scan_digits_length: "scan_digits s = (ds, r) \<Longrightarrow> length ds + length r = length s"
  unfolding scan_digits_def
  by (metis Pair_inject length_append takeWhile_dropWhile_id)

lemma scan_integer_shorter: "scan_integer s = Some (ds, r) \<Longrightarrow> length r < length s"
  by (auto simp: scan_integer_def neq_Nil_conv split: prod.splits if_splits
        dest!: scan_digits_length)

lemma scan_fraction_length: "scan_fraction s = Some (fs, r) \<Longrightarrow> length r \<le> length s"
  by (auto simp: scan_fraction_def split: list.splits prod.splits if_splits dest!: scan_digits_length)

lemma scan_exponent_length: "scan_exponent s = Some (es, r) \<Longrightarrow> length r \<le> length s"
  by (auto simp: scan_exponent_def split: list.splits prod.splits if_splits dest!: scan_digits_length)

lemma scan_number_shorter: "scan_number s = Some (t, r) \<Longrightarrow> length r < length s"
  by (fastforce simp: scan_number_def split: list.splits prod.splits if_splits option.splits
        dest!: scan_integer_shorter scan_fraction_length scan_exponent_length)

lemma scan_word_shorter: "w \<noteq> [] \<Longrightarrow> scan_word w s = Some r \<Longrightarrow> length r < length s"
  by (cases s) (auto simp: scan_word_def split: if_splits)

lemma consumes_simps [simp]:
  "consumes (Parsed a r) s = (length r < length s)"
  "consumes Malformed s = True"
  "consumes Exhausted s = False"
  by (simp_all add: consumes_def)

lemma consumes_and_then:
  assumes "consumes p s"
    and "\<And>a r. p = Parsed a r \<Longrightarrow> length r < length s \<Longrightarrow> consumes (f a r) s'"
  shows "consumes (and_then p f) s'"
  using assms by (cases p) (auto simp: and_then_def)

lemma consumes_mono: "consumes p s \<Longrightarrow> length s \<le> length s' \<Longrightarrow> consumes p s'"
  by (cases p) auto

lemma skip_ws_Cons: "skip_ws s = c # cs \<Longrightarrow> length cs < length s"
  using skip_ws_length [of s] by simp

lemma value_step:
  assumes E: "\<And>t. 2 * length t + 1 < k \<Longrightarrow> consumes (parse_elements N k t) t"
    and M: "\<And>t. 2 * length t < k \<Longrightarrow> consumes (parse_members N k t) t"
    and k: "2 * length s < Suc k"
  shows "consumes (parse_value N (Suc k) s) s"
proof (cases "skip_ws s")
  case Nil
  then show ?thesis by simp
next
  case (Cons c cs)
  then have l: "length cs < length s" by (rule skip_ws_Cons)
  have e: "consumes (and_then (parse_elements N k cs) (\<lambda>vs r'. Parsed (JArr vs) r')) s"
  proof (rule consumes_and_then)
    show "consumes (parse_elements N k cs) cs" using l k by (intro E) simp
  qed (use l in simp)
  have m: "consumes (and_then (parse_members N k cs) (\<lambda>ms r'. Parsed (make_object ms) r')) s"
  proof (rule consumes_and_then)
    show "consumes (parse_members N k cs) cs" using l k by (intro M) simp
  qed (use l in simp)
  have sk: "\<And>d r. skip_ws cs = d # r \<Longrightarrow> length r < length s"
    using l by (auto dest: skip_ws_Cons)
  have str: "\<And>t r. parse_chars cs = Some (t, r) \<Longrightarrow> length r < length s"
    using l by (auto dest: parse_chars_shorter)
  have num: "\<And>t r. scan_number (c # cs) = Some (t, r) \<Longrightarrow> length r < length s"
    using l by (fastforce dest: scan_number_shorter)
  have w: "\<And>w r. w \<noteq> [] \<Longrightarrow> scan_word w (c # cs) = Some r \<Longrightarrow> length r < length s"
    using l by (fastforce dest: scan_word_shorter)
  have nz: "str ''true'' \<noteq> []" "str ''false'' \<noteq> []" "str ''null'' \<noteq> []"
    by (simp_all add: str_def)
  show ?thesis
    using Cons e m sk str num w [OF nz(1)] w [OF nz(2)] w [OF nz(3)]
    by (auto split: list.splits option.splits)
qed

lemma elements_step:
  assumes V: "\<And>t. 2 * length t < k \<Longrightarrow> consumes (parse_value N k t) t"
    and E: "\<And>t. 2 * length t + 1 < k \<Longrightarrow> consumes (parse_elements N k t) t"
    and k: "2 * length s + 1 < Suc k"
  shows "consumes (parse_elements N (Suc k) s) s"
  unfolding parse_elements.simps
proof (rule consumes_and_then)
  show "consumes (parse_value N k s) s" using k by (intro V) simp
next
  fix v and r :: jsstring assume r: "length r < length s"
  show "consumes (case skip_ws r of [] \<Rightarrow> Malformed
       | c # r' \<Rightarrow>
           if c = 0x2C then and_then (parse_elements N k r') (\<lambda>vs r''. Parsed (v # vs) r'')
           else if c = 0x5D then Parsed [v] r'
           else Malformed) s"
  proof (cases "skip_ws r")
    case Nil
    then show ?thesis by simp
  next
    case (Cons c r')
    then have l: "length r' < length r" by (rule skip_ws_Cons)
    have "consumes (and_then (parse_elements N k r') (\<lambda>vs r''. Parsed (v # vs) r'')) s"
    proof (rule consumes_and_then)
      show "consumes (parse_elements N k r') r'" using l r k by (intro E) simp
    qed (use l r in simp)
    then show ?thesis using Cons l r by simp
  qed
qed

lemma members_step:
  assumes V: "\<And>t. 2 * length t < k \<Longrightarrow> consumes (parse_value N k t) t"
    and M: "\<And>t. 2 * length t < k \<Longrightarrow> consumes (parse_members N k t) t"
    and k: "2 * length s < Suc k"
  shows "consumes (parse_members N (Suc k) s) s"
proof (cases "skip_ws s")
  case Nil
  then show ?thesis by simp
next
  case (Cons q cs)
  then have l: "length cs < length s" by (rule skip_ws_Cons)
  show ?thesis
  proof (cases "parse_chars cs")
    case None
    with Cons show ?thesis by simp
  next
    case (Some p)
    obtain key r where p: "p = (key, r)" by (cases p)
    with Some have lr: "length r < length cs" by (auto dest: parse_chars_shorter)
    show ?thesis
    proof (cases "skip_ws r")
      case Nil
      with Cons Some p show ?thesis by simp
    next
      case c: (Cons c r1)
      then have l1: "length r1 < length r" by (rule skip_ws_Cons)
      have "consumes (and_then (parse_value N k r1) (\<lambda>v r2.
                          case skip_ws r2 of
                            [] \<Rightarrow> Malformed
                          | d # r3 \<Rightarrow>
                              if d = 0x2C then
                                and_then (parse_members N k r3) (\<lambda>ms r4. Parsed ((key, v) # ms) r4)
                              else if d = 0x7D then Parsed [(key, v)] r3
                              else Malformed)) s"
      proof (rule consumes_and_then)
        show "consumes (parse_value N k r1) r1" using l l1 lr k by (intro V) simp
      next
        fix v and r2 :: jsstring assume r2: "length r2 < length r1"
        show "consumes (case skip_ws r2 of
                            [] \<Rightarrow> Malformed
                          | d # r3 \<Rightarrow>
                              if d = 0x2C then
                                and_then (parse_members N k r3) (\<lambda>ms r4. Parsed ((key, v) # ms) r4)
                              else if d = 0x7D then Parsed [(key, v)] r3
                              else Malformed) s"
        proof (cases "skip_ws r2")
          case Nil
          then show ?thesis by simp
        next
          case d: (Cons d r3)
          then have l3: "length r3 < length r2" by (rule skip_ws_Cons)
          have "consumes (and_then (parse_members N k r3) (\<lambda>ms r4. Parsed ((key, v) # ms) r4)) s"
          proof (rule consumes_and_then)
            show "consumes (parse_members N k r3) r3" using l l1 lr r2 l3 k by (intro M) simp
          qed (use l l1 lr r2 l3 in simp)
          then show ?thesis using d l l1 lr r2 l3 by simp
        qed
      qed
      then show ?thesis using Cons Some p c by simp
    qed
  qed
qed

lemma parse_consumes:
  "(\<forall>s. 2 * length s < k \<longrightarrow> consumes (parse_value N k s) s)
   \<and> (\<forall>s. 2 * length s + 1 < k \<longrightarrow> consumes (parse_elements N k s) s)
   \<and> (\<forall>s. 2 * length s < k \<longrightarrow> consumes (parse_members N k s) s)"
proof (induction k)
  case 0
  then show ?case by simp
next
  case (Suc k)
  then show ?case
    by (intro conjI allI impI value_step elements_step members_step) auto
qed

lemma parse_value_enough_fuel:
  "parse_value N (Suc (2 * length s)) s \<noteq> Exhausted"
  using parse_consumes [of "Suc (2 * length s)" N] by (auto simp del: parse_value.simps)

subsection \<open>The encoded content always exists\<close>

text \<open>
  \<open>JSON.stringify\<close> escapes every surrogate that has no partner, so
  \<open>encodeURIComponent\<close> accepts its output, and \<open>unescape\<close> turns the escapes into bytes,
  which \<open>btoa\<close> accepts: lines 131 and 132 never throw.
\<close>

lemma well_formed_append: "well_formed a \<Longrightarrow> well_formed b \<Longrightarrow> well_formed (a @ b)"
  by (induction a rule: well_formed.induct) (auto split: if_splits list.splits)

lemma encodable_append [simp]: "encodable a \<Longrightarrow> encodable b \<Longrightarrow> encodable (a @ b)"
  by (auto simp: encodable_def well_formed_append)

lemma ascii_well_formed: "\<forall>c \<in> set s. c < 0x80 \<Longrightarrow> well_formed s"
  by (induction s) (auto simp: is_lead_def is_trail_def)

lemma ascii_encodable: "\<forall>c \<in> set s. c < 0x80 \<Longrightarrow> encodable s"
  by (fastforce simp: encodable_def ascii_well_formed)

lemma encodable_Cons:
  "\<not> is_lead c \<Longrightarrow> \<not> is_trail c \<Longrightarrow> c < 0x10000 \<Longrightarrow> encodable cs \<Longrightarrow> encodable (c # cs)"
  by (simp add: encodable_def)

lemma hex_lower_ascii: "d < 16 \<Longrightarrow> hex_lower d < 0x80"
  by (simp add: hex_lower_def)

lemma unicode_escape_encodable: "encodable (unicode_escape c)"
  by (rule ascii_encodable) (simp add: unicode_escape_def hex_lower_ascii)

lemma quote_chars_single: "c < 0x10000 \<Longrightarrow> encodable (quote_chars [c])"
  using unicode_escape_encodable [of c]
  by (auto simp: encodable_def is_lead_def is_trail_def)

lemma quote_chars_encodable: "\<forall>c \<in> set s. c < 0x10000 \<Longrightarrow> encodable (quote_chars s)"
proof (induction s rule: quote_chars.induct)
  case 1
  then show ?case by (simp add: encodable_def)
next
  case (2 c)
  then show ?case using quote_chars_single [of c] by simp
next
  case (3 c d ds)
  from "3.prems" have c: "c < 0x10000" and d: "d < 0x10000"
    and ds: "\<forall>x \<in> set ds. x < 0x10000" by simp_all
  show ?case
  proof (cases "is_lead c \<and> is_trail d")
    case True
    with "3.IH"(1) ds have "encodable (quote_chars ds)" by simp
    with True c d show ?thesis by (auto simp: encodable_def is_lead_def is_trail_def)
  next
    case False
    with "3.IH"(3) d ds have "encodable (quote_chars (d # ds))" by simp
    moreover have "encodable (quote_chars [c])" using c by (rule quote_chars_single)
    ultimately show ?thesis using False by (auto simp del: quote_chars.simps(2))
  qed
qed

lemma QuoteJSONString_encodable:
  "\<forall>c \<in> set s. c < 0x10000 \<Longrightarrow> encodable (QuoteJSONString s)"
  unfolding QuoteJSONString_def
  by (intro encodable_append quote_chars_encodable ascii_encodable) simp_all

lemma join_encodable:
  "encodable sep \<Longrightarrow> \<forall>x \<in> set xs. encodable x \<Longrightarrow> encodable (join sep xs)"
  by (induction sep xs rule: join.induct) (simp_all add: encodable_def[of "[]"])


lemma SerializeJSON_encodable:
  "number_text_ok N \<Longrightarrow> encodable gap \<Longrightarrow> encodable ind \<Longrightarrow> json_ok v
     \<Longrightarrow> encodable (SerializeJSON N gap ind v)"
proof (induction N gap ind v rule: SerializeJSON.induct)
  case (1 N gap ind)
  then show ?case by (simp add: ascii_encodable str_def)
next
  case (2 N gap ind b)
  then show ?case by (simp add: ascii_encodable str_def)
next
  case (3 N gap ind n)
  then show ?case
    by (auto simp: number_text_ok_def str_def intro!: ascii_encodable)
next
  case (4 N gap ind s)
  then show ?case by (simp add: QuoteJSONString_encodable)
next
  case (5 N gap ind vs)
  have i: "encodable (ind @ gap)" using "5.prems" by simp
  have items: "\<forall>x \<in> set (map (SerializeJSON N gap (ind @ gap)) vs). encodable x"
    using "5.IH" "5.prems" i by (cases "gap = []"; cases vs) auto
  have sep: "encodable (str '','')"
    "encodable (str ''['')" "encodable (str '']'')" "encodable [0x0A]" "encodable (str ''[]'')"
    by (simp_all add: ascii_encodable str_def)
  have sep2: "encodable (str '','' @ [0x0A] @ (ind @ gap))"
    by (intro encodable_append i sep)
  have ind: "encodable ind" using "5.prems" by simp
  show ?case
  proof (cases "vs = []")
    case True
    then show ?thesis using sep by simp
  next
    case False
    show ?thesis
    proof (cases "gap = []")
      case True
      have "encodable (str ''['' @ join (str '','') (map (SerializeJSON N gap (ind @ gap)) vs)
              @ str '']'')"
        by (intro encodable_append join_encodable sep items)
      then show ?thesis using False True by simp
    next
      case g: False
      have "encodable (str ''['' @ [0x0A] @ (ind @ gap)
          @ join (str '','' @ [0x0A] @ (ind @ gap)) (map (SerializeJSON N gap (ind @ gap)) vs)
          @ [0x0A] @ ind @ str '']'')"
        by (intro encodable_append join_encodable sep sep2 items i ind)
      then show ?thesis using False g by simp
    qed
  qed
next
  case (6 N gap ind ms)
  have i: "encodable (ind @ gap)" using "6.prems" by simp
  have sep: "encodable (str '','')"
    "encodable (str ''{'')" "encodable (str ''}'')" "encodable [0x0A]" "encodable (str ''{}'')"
    "encodable (str '':'')" "encodable (str '': '')"
    by (simp_all add: ascii_encodable str_def)
  have sep2: "encodable (str '','' @ [0x0A] @ (ind @ gap))"
    by (intro encodable_append i sep)
  have ind: "encodable ind" and gp: "encodable gap" using "6.prems" by simp_all
  show ?case
  proof (cases "ms = []")
    case True
    then show ?thesis using sep by simp
  next
    case False
    show ?thesis
    proof (cases "gap = []")
      case True
      have "encodable (str ''{'' @ join (str '','')
           (map (\<lambda>m. QuoteJSONString (fst m) @ str '':'' @ SerializeJSON N gap (ind @ gap) (snd m)) ms)
          @ str ''}'')"
      proof (intro encodable_append join_encodable sep ballI)
        fix x assume "x \<in> set (map (\<lambda>m. QuoteJSONString (fst m) @ str '':''
                  @ SerializeJSON N gap (ind @ gap) (snd m)) ms)"
        then obtain m where m: "m \<in> set ms"
          and x: "x = QuoteJSONString (fst m) @ str '':'' @ SerializeJSON N gap (ind @ gap) (snd m)"
          by auto
        have "encodable (SerializeJSON N gap (ind @ gap) (snd m))"
          using "6.IH"(1) [OF False True m] "6.prems" i m by auto
        moreover have "encodable (QuoteJSONString (fst m))"
          using "6.prems" m by (auto intro: QuoteJSONString_encodable)
        ultimately show "encodable x" unfolding x by (intro encodable_append sep)
      qed
      then show ?thesis using False True by simp
    next
      case g: False
      have "encodable (str ''{'' @ [0x0A] @ (ind @ gap)
          @ join (str '','' @ [0x0A] @ (ind @ gap))
             (map (\<lambda>m. QuoteJSONString (fst m) @ str '': '' @ SerializeJSON N gap (ind @ gap) (snd m)) ms)
          @ [0x0A] @ ind @ str ''}'')"
      proof (intro encodable_append join_encodable sep sep2 i ind gp ballI)
        fix x assume "x \<in> set (map (\<lambda>m. QuoteJSONString (fst m) @ str '': ''
                  @ SerializeJSON N gap (ind @ gap) (snd m)) ms)"
        then obtain m where m: "m \<in> set ms"
          and x: "x = QuoteJSONString (fst m) @ str '': '' @ SerializeJSON N gap (ind @ gap) (snd m)"
          by auto
        have "encodable (SerializeJSON N gap (ind @ gap) (snd m))"
          using "6.IH"(2) [OF False g m] "6.prems" i m by auto
        moreover have "encodable (QuoteJSONString (fst m))"
          using "6.prems" m by (auto intro: QuoteJSONString_encodable)
        ultimately show "encodable x" unfolding x by (intro encodable_append sep)
      qed
      then show ?thesis using False g by simp
    qed
  qed
qed


lemma hex_value_hex_upper: "d < 16 \<Longrightarrow> hex_value (hex_upper d) = Some d"
  by (auto simp: hex_value_def hex_upper_def)

lemma hex_upper_not_u: "d < 16 \<Longrightarrow> hex_upper d \<noteq> 0x75"
  by (auto simp: hex_upper_def)

lemma escape_u_percent: "d < 16 \<Longrightarrow> escape_u (hex_upper d # r) = None"
  by (auto simp: escape_u_def hex_upper_not_u split: list.splits)

lemma unescape_percent: "b < 256 \<Longrightarrow> unescape (percent b @ r) = b # unescape r"
proof -
  assume b: "b < 256"
  then have d: "b div 16 < 16" "b mod 16 < 16" by simp_all
  have "escape_x (hex_upper (b div 16) # hex_upper (b mod 16) # r) = Some b"
    using d by (simp add: escape_x_def hex_value_hex_upper)
  then show ?thesis using d by (simp add: percent_def escape_u_percent)
qed

lemma unescape_percents:
  "\<forall>b \<in> set bs. b < 256 \<Longrightarrow> unescape (concat (map percent bs) @ r) = bs @ unescape r"
  by (induction bs) (simp_all add: unescape_percent)

lemma utf8_bytes: "cp < 0x110000 \<Longrightarrow> \<forall>b \<in> set (utf8 cp). b < 256"
  by (auto simp: utf8_def)

lemma unreserved_plain: "unreserved c \<Longrightarrow> c < 256 \<and> c \<noteq> 0x25"
  by (auto simp: unreserved_def str_def)

lemma surrogate_pair_range:
  "is_lead c \<Longrightarrow> is_trail d \<Longrightarrow> 0x10000 + (c - 0xD800) * 0x400 + (d - 0xDC00) < 0x110000"
  by (auto simp: is_lead_def is_trail_def)

lemma encodeURIComponent_bytes:
  "encodable s \<Longrightarrow> \<exists>t. encodeURIComponent s = Inr t \<and> (\<forall>b \<in> set (unescape t). b < 256)"
proof (induction s rule: encodeURIComponent.induct)
  case 1
  then show ?case by simp
next
  case (2 c cs)
  from "2.prems" have nt: "\<not> is_trail c" and c: "c < 0x10000"
    by (auto simp: encodable_def split: if_splits)
  show ?case
  proof (cases "is_lead c")
    case True
    with "2.prems" nt obtain d ds where cs: "cs = d # ds" and d: "is_trail d" and e: "encodable ds"
      by (auto simp: encodable_def split: list.splits)
    from "2.IH"(1) [OF nt True cs d e] obtain t where
      t: "encodeURIComponent ds = Inr t" "\<forall>b \<in> set (unescape t). b < 256" by blast
    let ?bs = "utf8 (0x10000 + (c - 0xD800) * 0x400 + (d - 0xDC00))"
    have bs: "\<forall>b \<in> set ?bs. b < 256"
      by (rule utf8_bytes) (rule surrogate_pair_range [OF True d])
    have "encodeURIComponent (c # cs) = Inr (concat (map percent ?bs) @ t)"
      using nt True cs d t by (simp add: prepend_def)
    moreover have "\<forall>b \<in> set (unescape (concat (map percent ?bs) @ t)). b < 256"
      using bs t(2) by (auto simp: unescape_percents)
    ultimately show ?thesis by blast
  next
    case False
    with "2.prems" nt have e: "encodable cs" by (simp add: encodable_def)
    show ?thesis
    proof (cases "unreserved c")
      case True
      from "2.IH"(2) [OF nt False True e] obtain t where
        t: "encodeURIComponent cs = Inr t" "\<forall>b \<in> set (unescape t). b < 256" by blast
      have "encodeURIComponent (c # cs) = Inr ([c] @ t)"
        using nt False True t by (simp add: prepend_def)
      moreover have "\<forall>b \<in> set (unescape ([c] @ t)). b < 256"
        using unreserved_plain [OF True] t(2) by simp
      ultimately show ?thesis by blast
    next
      case u: False
      from "2.IH"(3) [OF nt False u e] obtain t where
        t: "encodeURIComponent cs = Inr t" "\<forall>b \<in> set (unescape t). b < 256" by blast
      have bs: "\<forall>b \<in> set (utf8 c). b < 256" using c by (intro utf8_bytes) simp
      have "encodeURIComponent (c # cs) = Inr (concat (map percent (utf8 c)) @ t)"
        using nt False u t by (simp add: prepend_def)
      moreover have "\<forall>b \<in> set (unescape (concat (map percent (utf8 c)) @ t)). b < 256"
        using bs t(2) by (auto simp: unescape_percents)
      ultimately show ?thesis by blast
    qed
  qed
qed

lemma encodedContent_total:
  assumes "number_text_ok N" and "json_ok logs"
  shows "\<exists>enc. encodedContent N logs = Inr enc"
proof -
  have "encodable (JSON_stringify2 N logs)"
    unfolding JSON_stringify2_def
    by (intro SerializeJSON_encodable assms ascii_encodable) (simp_all add: str_def encodable_def)
  from encodeURIComponent_bytes [OF this] obtain t where
    "encodeURIComponent (JSON_stringify2 N logs) = Inr t" "\<forall>b \<in> set (unescape t). b < 256"
    by blast
  then show ?thesis by (simp add: encodedContent_def btoa_def list_all_iff)
qed

lemma decimal_ascii: "\<forall>c \<in> set (decimal n). c < 0x80"
proof (induction n rule: decimal.induct)
  case (1 n)
  show ?case
  proof (cases "n < 10")
    case True
    then show ?thesis by (simp add: decimal.simps [of n])
  next
    case False
    with 1 have "\<forall>c \<in> set (decimal (n div 10)). c < 0x80" by simp
    moreover have "48 + n mod 10 < (0x80::nat)" by simp
    ultimately show ?thesis using False by (simp add: decimal.simps [of n])
  qed
qed

lemma sample_engine_ok: "number_text_ok sample_engine"
  by (simp add: number_text_ok_def sample_engine_def decimal_ascii)

subsection \<open>The adapter\<close>

lemma JSON_parse_empty: "JSON_parse N [] = Inl SyntaxError"
  by (simp add: JSON_parse_def skip_ws_def)

lemma saveLogsToLocal_result:
  "saveLogsToLocal W logs st =
     (has_room W (localStorage st) LOGS_KEY (JSON_stringify (engine W) logs),
      st\<lparr>localStorage :=
            (if has_room W (localStorage st) LOGS_KEY (JSON_stringify (engine W) logs)
             then (localStorage st)(LOGS_KEY \<mapsto> JSON_stringify (engine W) logs)
             else localStorage st),
          trace := trace st @ SetItem LOGS_KEY (JSON_stringify (engine W) logs)
             # (if has_room W (localStorage st) LOGS_KEY (JSON_stringify (engine W) logs)
                then [] else [ConsoleError])\<rparr>)"
  by (simp add: saveLogsToLocal_def setItem_def emit_def)

lemma saveLogs_sha_frame:
  assumes "saveLogs_sha W st = (sha, st1)"
  shows "config st1 = config st \<and> localStorage st1 = localStorage st
         \<and> (\<exists>evs. trace st1 = trace st @ evs \<and> alerts evs = 0)"
  using assms
  by (auto simp: saveLogs_sha_def fetch_def emit_def alerts_def
           split: sum.splits outcome.splits if_splits)

lemma saveLogs_try_throws_frame:
  assumes "saveLogs_try W logs st = (Inl e, st1)"
  shows "config st1 = config st \<and> localStorage st1 = localStorage st
         \<and> (\<exists>evs. trace st1 = trace st @ evs \<and> alerts evs = 0)"
proof -
  obtain sha st0 where s: "saveLogs_sha W st = (sha, st0)" by (cases "saveLogs_sha W st")
  from saveLogs_sha_frame [OF s] obtain evs where
    f: "config st0 = config st" "localStorage st0 = localStorage st"
       "trace st0 = trace st @ evs" "alerts evs = 0" by blast
  from assms s have "st1 = st0 \<or> (\<exists>req. st1 = emit (Fetch req) st0)"
    by (auto simp: saveLogs_try_def fetch_def saveLogsToLocal_result
             split: sum.splits outcome.splits if_splits)
  then show ?thesis
  proof
    assume "st1 = st0" with f show ?thesis by auto
  next
    assume "\<exists>req. st1 = emit (Fetch req) st0"
    then obtain req where "st1 = emit (Fetch req) st0" ..
    with f have "config st1 = config st" "localStorage st1 = localStorage st"
      "trace st1 = trace st @ (evs @ [Fetch req])" "alerts (evs @ [Fetch req]) = 0"
      by (simp_all add: emit_def alerts_def)
    then show ?thesis by blast
  qed
qed

lemma saveLogs_try_returns_frame:
  assumes "saveLogs_try W logs st = (Inr b, st1)"
  shows "b \<and> config st1 = config st
         \<and> localStorage st1 =
            (if has_room W (localStorage st) LOGS_KEY (JSON_stringify (engine W) logs)
             then (localStorage st)(LOGS_KEY \<mapsto> JSON_stringify (engine W) logs)
             else localStorage st)
         \<and> (\<exists>evs. trace st1 = trace st @ evs \<and> alerts evs = 0)"
proof -
  obtain sha st0 where s: "saveLogs_sha W st = (sha, st0)" by (cases "saveLogs_sha W st")
  from saveLogs_sha_frame [OF s] obtain evs where
    f: "config st0 = config st" "localStorage st0 = localStorage st"
       "trace st0 = trace st @ evs" "alerts evs = 0" by blast
  from assms s have "b \<and> (\<exists>req. st1 = emit ConsoleLog (snd (saveLogsToLocal W logs (emit (Fetch req) st0))))"
    by (auto simp: saveLogs_try_def fetch_def saveLogsToLocal_result
             split: sum.splits outcome.splits if_splits)
  then obtain req where
    r: "b" "st1 = emit ConsoleLog (snd (saveLogsToLocal W logs (emit (Fetch req) st0)))"
    by blast
  let ?t = "JSON_stringify (engine W) logs"
  let ?room = "has_room W (localStorage st) LOGS_KEY ?t"
  have "trace st1 = trace st @ (evs @ Fetch req # SetItem LOGS_KEY ?t
           # (if ?room then [] else [ConsoleError]) @ [ConsoleLog])"
    using r f by (simp add: saveLogsToLocal_result emit_def)
  moreover have "alerts (evs @ Fetch req # SetItem LOGS_KEY ?t
           # (if ?room then [] else [ConsoleError]) @ [ConsoleLog]) = 0"
    using f by (simp add: alerts_def)
  ultimately have "\<exists>evs. trace st1 = trace st @ evs \<and> alerts evs = 0" by blast
  moreover have "config st1 = config st" using r f by (simp add: saveLogsToLocal_result emit_def)
  moreover have "localStorage st1 = (if ?room then (localStorage st)(LOGS_KEY \<mapsto> ?t) else localStorage st)"
    using r f by (simp add: saveLogsToLocal_result emit_def)
  ultimately show ?thesis using r by blast
qed

lemma truthy_present: "truthy N x \<Longrightarrow> x \<noteq> None \<and> x \<noteq> Some (JStr [])"
  by (cases x) auto

lemma isConfigured_truthy_iff:
  "truthy N (isConfigured N st) \<longleftrightarrow>
     truthy N (Some (config st)) \<and> truthy N (property (config st) (str ''username''))
     \<and> truthy N (property (config st) (str ''repo''))
     \<and> truthy N (property (config st) (str ''token''))"
  by (simp add: isConfigured_def)

lemma getApiUrl_configured: "getApiUrl N st = Inr u \<Longrightarrow> truthy N (isConfigured N st)"
  by (auto simp: getApiUrl_def split: if_splits)

lemma request_parts_config:
  assumes "config st1 = config st"
  shows "getApiUrl N st1 = getApiUrl N st" and "getHeaders N st1 = getHeaders N st"
  using assms by (simp_all add: getApiUrl_def getHeaders_def isConfigured_def cong: sum.case_cong)

text \<open>
  Once the address, the headers and the encoded content exist, the outer \<open>try\<close> block of
  \<open>saveLogs\<close> comes down to the update request and the handling of its response.
\<close>

lemma saveLogs_try_put:
  assumes "getApiUrl (engine W) st = Inr u" and "getHeaders (engine W) st = Inr h"
    and "encodedContent (engine W) logs = Inr enc"
  shows "saveLogs_try W logs st =
     (case fetch W \<lparr>request_method = PUT, url = u, headers = h,
              body = Some (JSON_stringify (engine W)
                (requestBody W st (fst (saveLogs_sha W st)) enc))\<rparr> (snd (saveLogs_sha W st)) of
        (Rejected e, st2) \<Rightarrow> (Inl e, st2)
      | (Response status payload, st2) \<Rightarrow>
          if \<not> ok status then
            (case payload of
               Inl e \<Rightarrow> (Inl e, st2)
             | Inr errorData \<Rightarrow>
                 (case get_prop errorData (str ''message'') of
                    Inl e \<Rightarrow> (Inl e, st2)
                  | Inr m \<Rightarrow>
                      if truthy (engine W) m then
                        (case ToString_val (engine W) m of
                           Inl e \<Rightarrow> (Inl e, st2)
                         | Inr text \<Rightarrow> (Inl (Error text), st2))
                      else (Inl (Error api_error_message), st2)))
          else
            (case saveLogsToLocal W logs st2 of (b, st3) \<Rightarrow> (Inr True, emit ConsoleLog st3)))"
proof -
  obtain sha st1 where s: "saveLogs_sha W st = (sha, st1)" by (cases "saveLogs_sha W st")
  from saveLogs_sha_frame [OF s] have c: "config st1 = config st" by simp
  have "getApiUrl (engine W) st1 = getApiUrl (engine W) st"
    "getHeaders (engine W) st1 = getHeaders (engine W) st"
    "requestBody W st1 sha enc = requestBody W st sha enc"
    using c request_parts_config [OF c] by (simp_all add: requestBody_def)
  then have "getApiUrl (engine W) st1 = Inr u" "getHeaders (engine W) st1 = Inr h"
    "requestBody W st1 sha enc = requestBody W st sha enc"
    using assms(1,2) by simp_all
  then show ?thesis using s assms(3)
    by (simp add: saveLogs_try_def put_request_def)
qed

text \<open>An update request that is rejected or answered with a non-success status makes the
  outer \<open>try\<close> block throw.\<close>

lemma put_failure_throws:
  assumes "getApiUrl (engine W) st = Inr u" and "getHeaders (engine W) st = Inr h"
    and "encodedContent (engine W) logs = Inr enc"
    and "server W \<lparr>request_method = PUT, url = u, headers = h,
            body = Some (JSON_stringify (engine W)
              (requestBody W st (fst (saveLogs_sha W st)) enc))\<rparr> = out"
    and "case out of Rejected e \<Rightarrow> True | Response status payload \<Rightarrow> \<not> ok status"
  shows "\<exists>e. fst (saveLogs_try W logs st) = Inl e"
  using assms(4,5)
  by (auto simp: saveLogs_try_put [OF assms(1-3)] fetch_def split: outcome.splits sum.splits)

text \<open>
  When the address or the headers of the update request cannot be built, the exception
  of \<open>getApiUrl\<close> or \<open>getHeaders\<close> reaches the outer \<open>catch\<close> and no update request is
  sent.
\<close>

lemma saveLogs_try_unbuilt:
  assumes "encodedContent (engine W) logs = Inr enc"
    and "getApiUrl (engine W) st = Inl e
         \<or> (\<exists>u. getApiUrl (engine W) st = Inr u) \<and> getHeaders (engine W) st = Inl e"
  shows "saveLogs_try W logs st = (Inl e, snd (saveLogs_sha W st))"
proof -
  obtain sha st1 where s: "saveLogs_sha W st = (sha, st1)" by (cases "saveLogs_sha W st")
  from saveLogs_sha_frame [OF s] have c: "config st1 = config st" by simp
  have "getApiUrl (engine W) st1 = getApiUrl (engine W) st"
    "getHeaders (engine W) st1 = getHeaders (engine W) st"
    using request_parts_config [OF c] by simp_all
  then show ?thesis using s assms
    by (auto simp: saveLogs_try_def put_request_def)
qed

text \<open>
  When the update request can be built, \<open>saveLogs\<close> returns \<open>true\<close> exactly when that
  request gets a success response.
\<close>

lemma saveLogs_result:
  assumes "getApiUrl (engine W) st = Inr u" and "getHeaders (engine W) st = Inr h"
    and "encodedContent (engine W) logs = Inr enc"
  shows "fst (saveLogs W logs st) =
     (case server W \<lparr>request_method = PUT, url = u, headers = h,
              body = Some (JSON_stringify (engine W)
                (requestBody W st (fst (saveLogs_sha W st)) enc))\<rparr> of
        Rejected e \<Rightarrow> False
      | Response status payload \<Rightarrow> ok status)"
  using getApiUrl_configured [OF assms(1)]
  by (simp add: saveLogs_def saveLogs_try_put [OF assms] fetch_def saveLogsToLocal_result
           split: outcome.splits sum.splits)

text \<open>
  When the read request of \<open>loadLogs\<close> cannot be built in a configured state, no request
  is sent and \<open>loadLogs\<close> falls back to the local cache.
\<close>

lemma loadLogs_unbuilt:
  assumes "truthy (engine W) (isConfigured (engine W) st)"
    and "getApiUrl (engine W) st = Inl e
         \<or> (\<exists>u. getApiUrl (engine W) st = Inr u) \<and> getHeaders (engine W) st = Inl e"
  shows "loadLogs W st = loadLogsFromLocal (engine W) (emit ConsoleLog (emit ConsoleError st))"
  using assms by (auto simp: loadLogs_def loadLogs_try_def)

lemma awkward_config_runs:
  "truthy sample_engine (isConfigured sample_engine (sample_state awkward_config Map.empty))
   \<and> getApiUrl sample_engine (sample_state awkward_config Map.empty) = Inl TypeError
   \<and> loadLogs (sample_world missing_server True)
        (sample_state awkward_config [LOGS_KEY \<mapsto> str ''[true]''])
     = (Inr (JArr [JBool True]),
        \<lparr>config = awkward_config, localStorage = [LOGS_KEY \<mapsto> str ''[true]''],
         trace = [ConsoleError, ConsoleLog, GetItem LOGS_KEY]\<rparr>)
   \<and> fst (saveLogs (sample_world creating_server True) sample_logs
          (sample_state awkward_config Map.empty)) = False
   \<and> trace (snd (saveLogs (sample_world creating_server True) sample_logs
          (sample_state awkward_config Map.empty)))
     = [ConsoleLog, ConsoleError, Alert TypeError,
        SetItem LOGS_KEY (JSON_stringify sample_engine sample_logs)]"
proof -
  have c: "truthy sample_engine (isConfigured sample_engine (sample_state awkward_config Map.empty))"
    by code_simp
  have u: "getApiUrl sample_engine (sample_state awkward_config Map.empty) = Inl TypeError"
    by code_simp
  have c': "truthy (engine (sample_world missing_server True))
      (isConfigured (engine (sample_world missing_server True))
         (sample_state awkward_config [LOGS_KEY \<mapsto> str ''[true]'']))"
    by code_simp
  have u': "getApiUrl (engine (sample_world missing_server True))
      (sample_state awkward_config [LOGS_KEY \<mapsto> str ''[true]'']) = Inl TypeError"
    by code_simp
  have p: "JSON_parse sample_engine (str ''[true]'') = Inr (JArr [JBool True])" by code_simp
  have l: "loadLogs (sample_world missing_server True)
        (sample_state awkward_config [LOGS_KEY \<mapsto> str ''[true]''])
     = (Inr (JArr [JBool True]),
        \<lparr>config = awkward_config, localStorage = [LOGS_KEY \<mapsto> str ''[true]''],
         trace = [ConsoleError, ConsoleLog, GetItem LOGS_KEY]\<rparr>)"
  proof -
    have "loadLogs (sample_world missing_server True)
        (sample_state awkward_config [LOGS_KEY \<mapsto> str ''[true]''])
      = loadLogsFromLocal (engine (sample_world missing_server True))
          (emit ConsoleLog (emit ConsoleError
             (sample_state awkward_config [LOGS_KEY \<mapsto> str ''[true]''])))"
      using u' by (intro loadLogs_unbuilt [OF c']) simp
    then show ?thesis using p
      by (simp add: loadLogsFromLocal_def getItem_def emit_def
            sample_state_def sample_world_def str_def)
  qed
  have f: "fst (saveLogs (sample_world creating_server True) sample_logs
          (sample_state awkward_config Map.empty)) = False"
    by code_simp
  have t: "trace (snd (saveLogs (sample_world creating_server True) sample_logs
          (sample_state awkward_config Map.empty)))
     = [ConsoleLog, ConsoleError, Alert TypeError,
        SetItem LOGS_KEY (JSON_stringify sample_engine sample_logs)]"
    by code_simp
  show ?thesis using c u l f t by simp
qed

text \<open>
  In a configured state \<open>syncToGitHub\<close> pushes what the key \<open>updateLogs\<close> holds: the
  parsed text, or the empty array when the key is absent.
\<close>

lemma syncToGitHub_pushes_cache:
  assumes "truthy (engine W) (isConfigured (engine W) st)"
  shows "localStorage st LOGS_KEY = None \<Longrightarrow>
           syncToGitHub W st =
             (Inr (fst (saveLogs W (JArr []) (emit (GetItem LOGS_KEY) st))),
              snd (saveLogs W (JArr []) (emit (GetItem LOGS_KEY) st)))"
    and "localStorage st LOGS_KEY = Some s \<Longrightarrow> JSON_parse (engine W) s = Inr logs \<Longrightarrow>
           syncToGitHub W st =
             (Inr (fst (saveLogs W logs (emit (GetItem LOGS_KEY) st))),
              snd (saveLogs W logs (emit (GetItem LOGS_KEY) st)))"
  using assms
  by (auto simp: syncToGitHub_def loadLogsFromLocal_def getItem_def JSON_parse_empty
           split: prod.splits)

lemma sync_unconfigured:
  assumes "\<not> truthy (engine W) (isConfigured (engine W) st)"
  shows "syncFromGitHub W st = (Inl (Error configure_first_message), st)"
    and "syncToGitHub W st = (Inl (Error configure_first_message), st)"
  using assms by (simp_all add: syncFromGitHub_def syncToGitHub_def)

lemma syncFromGitHub_configured:
  "truthy (engine W) (isConfigured (engine W) st) \<Longrightarrow> syncFromGitHub W st = loadLogs W st"
  by (simp add: syncFromGitHub_def)

section \<open>The claims\<close>

text \<open>
  C1 (fails on the code).  Saving a collection with non-ASCII text and loading it back
  from a remote that returns exactly the written content should give the collection
  back.  \<open>saveLogs\<close> encodes the JSON text as UTF-8 before \<open>btoa\<close>, but \<open>loadLogs\<close> parses
  the result of \<open>atob\<close> without decoding UTF-8: the two characters U+65E5 U+5FD7 come back
  as the six code units E6 97 A5 E5 BF 97.
\<close>

theorem roundtrip_non_ascii_differs:
  "fst (saveLogs (sample_world creating_server True) sample_logs
         (sample_state sample_config Map.empty)) = True
   \<and> fst (loadLogs
       (sample_world
          (file_server (written_content sample_engine
             (trace (snd (saveLogs (sample_world creating_server True) sample_logs
                (sample_state sample_config Map.empty)))))) True)
       (snd (saveLogs (sample_world creating_server True) sample_logs
          (sample_state sample_config Map.empty))))
     = Inr (JArr [JObj [(str ''text'', JStr [0xE6, 0x97, 0xA5, 0xE5, 0xBF, 0x97])]])
   \<and> JArr [JObj [(str ''text'', JStr [0xE6, 0x97, 0xA5, 0xE5, 0xBF, 0x97])]] \<noteq> sample_logs"
  by code_simp

text \<open>
  C2 (as stated, fails).  After \<open>saveLogs(X)\<close> the key \<open>updateLogs\<close> should hold
  \<open>JSON.stringify(X)\<close> whatever the remote does.  When local storage has no room,
  \<open>saveLogsToLocal\<close> catches the error and the key keeps its old content: here the remote
  accepts the update and the key stays absent.
\<close>

theorem saveLogs_cache_counterexample:
  "fst (saveLogs (sample_world creating_server False) sample_logs
          (sample_state sample_config Map.empty)) = True
   \<and> localStorage (snd (saveLogs (sample_world creating_server False) sample_logs
          (sample_state sample_config Map.empty))) LOGS_KEY
       \<noteq> Some (JSON_stringify sample_engine sample_logs)"
  by code_simp

text \<open>
  C2, amended.  For every collection, configuration and remote outcome: after \<open>saveLogs\<close>
  the key \<open>updateLogs\<close> holds the JSON text of the collection whenever local storage has
  room for that write; when it has none, local storage is left as it was.
\<close>

theorem saveLogs_cache:
  "(has_room W (localStorage st) LOGS_KEY (JSON_stringify (engine W) logs)
      \<longrightarrow> localStorage (snd (saveLogs W logs st)) LOGS_KEY = Some (JSON_stringify (engine W) logs))
   \<and> (\<not> has_room W (localStorage st) LOGS_KEY (JSON_stringify (engine W) logs)
      \<longrightarrow> localStorage (snd (saveLogs W logs st)) = localStorage st)"
proof (cases "truthy (engine W) (isConfigured (engine W) st)")
  case False
  then show ?thesis by (simp add: saveLogs_def saveLogsToLocal_result emit_def)
next
  case True
  obtain r st1 where t: "saveLogs_try W logs st = (r, st1)" by (cases "saveLogs_try W logs st")
  show ?thesis
  proof (cases r)
    case (Inl e)
    with t saveLogs_try_throws_frame [of W logs st e st1]
    show ?thesis using True by (simp add: saveLogs_def saveLogsToLocal_result emit_def)
  next
    case (Inr b)
    with t saveLogs_try_returns_frame [of W logs st b st1]
    show ?thesis using True by (simp add: saveLogs_def)
  qed
qed

theorem saveLogs_cache_witness:
  "has_room (sample_world refusing_server True) Map.empty LOGS_KEY
      (JSON_stringify sample_engine sample_logs)
   \<and> localStorage (snd (saveLogs (sample_world refusing_server True) sample_logs
        (sample_state sample_config Map.empty))) LOGS_KEY
       = Some (JSON_stringify sample_engine sample_logs)
   \<and> \<not> has_room (sample_world unreachable_server False) Map.empty LOGS_KEY
      (JSON_stringify sample_engine sample_logs)
   \<and> localStorage (snd (saveLogs (sample_world unreachable_server False) sample_logs
        (sample_state sample_config Map.empty))) = Map.empty"
  using saveLogs_cache [where W = "sample_world refusing_server True" and logs = sample_logs
          and st = "sample_state sample_config Map.empty"]
        saveLogs_cache [where W = "sample_world unreachable_server False" and logs = sample_logs
          and st = "sample_state sample_config Map.empty"]
  by (simp add: sample_world_def sample_state_def)

text \<open>
  C3.  In a configured state, when the read request of \<open>loadLogs\<close> is sent and answered
  with status 404, \<open>loadLogs\<close> returns the empty array, local storage is unchanged, and
  the only effects are the request and one console line: the key \<open>updateLogs\<close> is neither
  read nor written.  The first two hypotheses say that the request is built, which makes
  the state a configured one; where \<open>getApiUrl\<close> or \<open>getHeaders\<close> throws there is no remote
  read (\<open>loadLogs_unbuilt\<close>).
\<close>

theorem loadLogs_404:
  assumes "getApiUrl (engine W) st = Inr u" and "getHeaders (engine W) st = Inr h"
    and "server W \<lparr>request_method = GET, url = u, headers = h, body = None\<rparr> = Response 404 payload"
  shows "truthy (engine W) (isConfigured (engine W) st)
     \<and> fst (loadLogs W st) = Inr (JArr [])
     \<and> localStorage (snd (loadLogs W st)) = localStorage st
     \<and> trace (snd (loadLogs W st)) =
         trace st @ [Fetch \<lparr>request_method = GET, url = u, headers = h, body = None\<rparr>, ConsoleLog]"
  using assms getApiUrl_configured [OF assms(1)]
  by (simp add: loadLogs_def loadLogs_try_def fetch_def emit_def)

theorem loadLogs_404_witness:
  "fst (loadLogs (sample_world missing_server True)
          (sample_state sample_config [LOGS_KEY \<mapsto> str ''[1]''])) = Inr (JArr [])
   \<and> localStorage (snd (loadLogs (sample_world missing_server True)
          (sample_state sample_config [LOGS_KEY \<mapsto> str ''[1]'']))) LOGS_KEY = Some (str ''[1]'')
   \<and> trace (snd (loadLogs (sample_world missing_server True)
          (sample_state sample_config [LOGS_KEY \<mapsto> str ''[1]''])))
       = [Fetch \<lparr>request_method = GET, url = sample_url, headers = sample_headers, body = None\<rparr>,
          ConsoleLog]"
proof -
  let ?W = "sample_world missing_server True"
  let ?st = "sample_state sample_config [LOGS_KEY \<mapsto> str ''[1]'']"
  have u: "getApiUrl (engine ?W) ?st = Inr sample_url" by code_simp
  have h: "getHeaders (engine ?W) ?st = Inr sample_headers" by code_simp
  have r: "server ?W \<lparr>request_method = GET, url = sample_url, headers = sample_headers, body = None\<rparr>
             = Response 404 (Inr (JObj [(str ''message'', JStr (str ''Not Found''))]))"
    by (simp add: sample_world_def missing_server_def)
  show ?thesis using loadLogs_404 [OF u h r] by (simp add: sample_state_def)
qed

text \<open>
  C4 (fails on the code).  \<open>loadLogs\<close> should never let an exception reach its caller.
  \<open>loadLogsFromLocal\<close> parses the cached text outside every \<open>try\<close>: with the malformed
  text \<open>{\<close> under \<open>updateLogs\<close> the SyntaxError leaves \<open>loadLogs\<close>, both in an unconfigured
  state and in a configured one whose remote read fails.
\<close>

theorem loadLogs_throws_on_malformed_cache:
  "fst (loadLogs (sample_world creating_server True)
          (sample_state JNull [LOGS_KEY \<mapsto> str ''{''])) = Inl SyntaxError
   \<and> fst (loadLogs (sample_world unreachable_server True)
          (sample_state sample_config [LOGS_KEY \<mapsto> str ''{''])) = Inl SyntaxError"
  by code_simp

text \<open>
  C5 (as stated, fails).  When the update request of \<open>saveLogs\<close> gets a non-success
  response, or any other step after the configured check throws, \<open>saveLogs\<close> should
  return \<open>false\<close>, alert once, and the collection should still be written to the key
  \<open>updateLogs\<close>.  With a refused update and no room in local storage the first two hold
  and the key stays absent.  And a read request that throws is a step after the check
  whose exception the inner \<open>catch\<close> absorbs: when the update then succeeds, \<open>saveLogs\<close>
  returns \<open>true\<close> and shows no alert.
\<close>

theorem saveLogs_failure_counterexample:
  "fst (saveLogs (sample_world refusing_server False) sample_logs
          (sample_state sample_config Map.empty)) = False
   \<and> alerts (trace (snd (saveLogs (sample_world refusing_server False) sample_logs
          (sample_state sample_config Map.empty)))) = 1
   \<and> localStorage (snd (saveLogs (sample_world refusing_server False) sample_logs
          (sample_state sample_config Map.empty))) LOGS_KEY = None
   \<and> fst (saveLogs (sample_world flaky_server True) sample_logs
          (sample_state sample_config Map.empty)) = True
   \<and> alerts (trace (snd (saveLogs (sample_world flaky_server True) sample_logs
          (sample_state sample_config Map.empty)))) = 0"
  by code_simp

text \<open>
  C5, amended.  In a configured state, when an exception reaches the \<open>catch\<close> of the
  outer \<open>try\<close> block of \<open>saveLogs\<close>, \<open>saveLogs\<close> returns \<open>false\<close>, the alert is shown
  exactly once, and the write of the collection to the key \<open>updateLogs\<close> is still
  attempted: after the console error and the alert comes one \<open>setItem\<close>, and the key
  holds the JSON text of the collection whenever local storage has room for it, local
  storage being unchanged otherwise.  An exception reaches that \<open>catch\<close> when the update
  request is rejected or gets a non-success response (\<open>put_failure_throws\<close>) and when
  the request cannot be built because \<open>getApiUrl\<close> or \<open>getHeaders\<close> throws
  (\<open>saveLogs_try_unbuilt\<close>); the witness runs both.
\<close>

theorem saveLogs_failure:
  assumes "truthy (engine W) (isConfigured (engine W) st)"
    and "fst (saveLogs_try W logs st) = Inl e"
  shows "fst (saveLogs W logs st) = False
     \<and> trace (snd (saveLogs W logs st)) =
         trace (snd (saveLogs_try W logs st))
           @ [ConsoleError, Alert e, SetItem LOGS_KEY (JSON_stringify (engine W) logs)]
           @ (if has_room W (localStorage st) LOGS_KEY (JSON_stringify (engine W) logs)
              then [] else [ConsoleError])
     \<and> alerts (trace (snd (saveLogs W logs st))) = alerts (trace st) + 1
     \<and> localStorage (snd (saveLogs W logs st)) =
         (if has_room W (localStorage st) LOGS_KEY (JSON_stringify (engine W) logs)
          then (localStorage st)(LOGS_KEY \<mapsto> JSON_stringify (engine W) logs)
          else localStorage st)"
proof -
  obtain st1 where t: "saveLogs_try W logs st = (Inl e, st1)"
    using assms(2) by (cases "saveLogs_try W logs st") auto
  from saveLogs_try_throws_frame [OF t] obtain evs where
    f: "localStorage st1 = localStorage st" "trace st1 = trace st @ evs" "alerts evs = 0"
    by blast
  show ?thesis using assms(1) t f
    by (simp add: saveLogs_def saveLogsToLocal_result emit_def alerts_def)
qed

theorem saveLogs_failure_witness:
  "server (sample_world refusing_server True)
      \<lparr>request_method = PUT, url = sample_url, headers = sample_headers, body = None\<rparr>
     = Response 500 (Inr (JObj [(str ''message'', JStr (str ''Server Error''))]))
   \<and> fst (saveLogs (sample_world refusing_server True) sample_logs
          (sample_state sample_config Map.empty)) = False
   \<and> alerts (trace (snd (saveLogs (sample_world refusing_server True) sample_logs
          (sample_state sample_config Map.empty)))) = 1
   \<and> localStorage (snd (saveLogs (sample_world refusing_server True) sample_logs
          (sample_state sample_config Map.empty))) LOGS_KEY
       = Some (JSON_stringify sample_engine sample_logs)
   \<and> getApiUrl sample_engine (sample_state awkward_config Map.empty) = Inl TypeError
   \<and> fst (saveLogs (sample_world creating_server True) sample_logs
          (sample_state awkward_config Map.empty)) = False
   \<and> alerts (trace (snd (saveLogs (sample_world creating_server True) sample_logs
          (sample_state awkward_config Map.empty)))) = 1
   \<and> localStorage (snd (saveLogs (sample_world creating_server True) sample_logs
          (sample_state awkward_config Map.empty))) LOGS_KEY
       = Some (JSON_stringify sample_engine sample_logs)"
proof -
  let ?W = "sample_world refusing_server True"
  let ?st = "sample_state sample_config Map.empty"
  have c: "truthy (engine ?W) (isConfigured (engine ?W) ?st)" by code_simp
  have t: "fst (saveLogs_try ?W sample_logs ?st) = Inl (Error (str ''Server Error''))"
    by code_simp
  have r: "server ?W \<lparr>request_method = PUT, url = sample_url, headers = sample_headers, body = None\<rparr>
     = Response 500 (Inr (JObj [(str ''message'', JStr (str ''Server Error''))]))"
    by (simp add: sample_world_def refusing_server_def)
  have a: "alerts (trace ?st) = 0" by (simp add: alerts_def sample_state_def)
  have e: "engine ?W = sample_engine" by (simp add: sample_world_def)
  have m: "localStorage ?st = Map.empty" by (simp add: sample_state_def)
  have h: "has_room ?W Map.empty LOGS_KEY (JSON_stringify sample_engine sample_logs)"
    by (simp add: sample_world_def)
  note k = saveLogs_failure [OF c t]
  have 1: "fst (saveLogs ?W sample_logs ?st) = False" using k by (rule conjunct1)
  have 3: "alerts (trace (snd (saveLogs ?W sample_logs ?st))) = 1"
    using k [THEN conjunct2, THEN conjunct2, THEN conjunct1] a by simp
  have 4: "localStorage (snd (saveLogs ?W sample_logs ?st)) LOGS_KEY
       = Some (JSON_stringify sample_engine sample_logs)"
    using k [THEN conjunct2, THEN conjunct2, THEN conjunct2] e m h by simp
  let ?V = "sample_world creating_server True"
  let ?aw = "sample_state awkward_config Map.empty"
  have c': "truthy (engine ?V) (isConfigured (engine ?V) ?aw)" by code_simp
  have u': "getApiUrl sample_engine ?aw = Inl TypeError" by code_simp
  have t': "fst (saveLogs_try ?V sample_logs ?aw) = Inl TypeError" by code_simp
  have a': "alerts (trace ?aw) = 0" by (simp add: alerts_def sample_state_def)
  have e': "engine ?V = sample_engine" by (simp add: sample_world_def)
  have m': "localStorage ?aw = Map.empty" by (simp add: sample_state_def)
  have h': "has_room ?V Map.empty LOGS_KEY (JSON_stringify sample_engine sample_logs)"
    by (simp add: sample_world_def)
  note k' = saveLogs_failure [OF c' t']
  have 5: "fst (saveLogs ?V sample_logs ?aw) = False" using k' by (rule conjunct1)
  have 6: "alerts (trace (snd (saveLogs ?V sample_logs ?aw))) = 1"
    using k' [THEN conjunct2, THEN conjunct2, THEN conjunct1] a' by simp
  have 7: "localStorage (snd (saveLogs ?V sample_logs ?aw)) LOGS_KEY
       = Some (JSON_stringify sample_engine sample_logs)"
    using k' [THEN conjunct2, THEN conjunct2, THEN conjunct2] e' m' h' by simp
  show ?thesis using r 1 3 4 u' 5 6 7 by blast
qed

text \<open>
  C6.  \<open>isConfigured()\<close> is falsy whenever \<open>username\<close>, \<open>repo\<close> or \<open>token\<close> is absent from
  the configuration or is the empty string (an absent configuration has no field), so it
  is truthy only when all three are present and non-empty; and it is truthy when all
  three are non-empty strings.  The function returns the value of an \<open>&&\<close> chain, which
  its callers test for truthiness.
\<close>

theorem isConfigured_needs_all_three:
  "((\<exists>k \<in> {str ''username'', str ''repo'', str ''token''}.
       property (config st) k = None \<or> property (config st) k = Some (JStr []))
     \<longrightarrow> \<not> truthy N (isConfigured N st))
   \<and> ((\<forall>k \<in> {str ''username'', str ''repo'', str ''token''}.
         \<exists>s. property (config st) k = Some (JStr s) \<and> s \<noteq> [])
     \<longrightarrow> truthy N (isConfigured N st))"
proof (intro conjI impI)
  assume "\<exists>k \<in> {str ''username'', str ''repo'', str ''token''}.
       property (config st) k = None \<or> property (config st) k = Some (JStr [])"
  then show "\<not> truthy N (isConfigured N st)"
    by (auto simp: isConfigured_truthy_iff dest: truthy_present)
next
  assume a: "\<forall>k \<in> {str ''username'', str ''repo'', str ''token''}.
         \<exists>s. property (config st) k = Some (JStr s) \<and> s \<noteq> []"
  then have "\<exists>ms. config st = JObj ms" by (cases "config st") auto
  then show "truthy N (isConfigured N st)"
    using a by (auto simp: isConfigured_truthy_iff)
qed

theorem isConfigured_needs_all_three_witness:
  "property (JObj [(str ''username'', JStr (str ''octo'')), (str ''repo'', JStr [])] :: nat json)
      (str ''repo'') = Some (JStr [])
   \<and> \<not> truthy sample_engine (isConfigured sample_engine
        (sample_state (JObj [(str ''username'', JStr (str ''octo'')), (str ''repo'', JStr [])])
           Map.empty))
   \<and> truthy sample_engine (isConfigured sample_engine (sample_state sample_config Map.empty))"
proof -
  let ?c = "JObj [(str ''username'', JStr (str ''octo'')), (str ''repo'', JStr [])] :: nat json"
  have p: "property ?c (str ''repo'') = Some (JStr [])" by (simp add: str_def)
  then have "\<exists>k \<in> {str ''username'', str ''repo'', str ''token''}.
       property (config (sample_state ?c Map.empty)) k = None
       \<or> property (config (sample_state ?c Map.empty)) k = Some (JStr [])"
    by (simp add: sample_state_def)
  then have 1: "\<not> truthy sample_engine (isConfigured sample_engine (sample_state ?c Map.empty))"
    using isConfigured_needs_all_three
            [where N = sample_engine and st = "sample_state ?c Map.empty"] by blast
  have "\<forall>k \<in> {str ''username'', str ''repo'', str ''token''}.
         \<exists>s. property (config (sample_state sample_config Map.empty)) k = Some (JStr s) \<and> s \<noteq> []"
    by (simp add: sample_state_def sample_config_def str_def)
  then have 2: "truthy sample_engine (isConfigured sample_engine (sample_state sample_config Map.empty))"
    using isConfigured_needs_all_three
            [where N = sample_engine and st = "sample_state sample_config Map.empty"] by blast
  show ?thesis using p 1 2 by blast
qed

text \<open>
  C7.  In an unconfigured state \<open>loadLogs\<close> returns the empty array when the key
  \<open>updateLogs\<close> is absent, and the parsed content of the key when it holds a text that
  \<open>JSON.parse\<close> accepts; its only effects are one console warning and the read of the key,
  so no request is sent.
\<close>

theorem loadLogs_unconfigured:
  assumes "\<not> truthy (engine W) (isConfigured (engine W) st)"
  shows "(localStorage st LOGS_KEY = None \<longrightarrow> fst (loadLogs W st) = Inr (JArr []))
     \<and> (\<forall>s v. localStorage st LOGS_KEY = Some s \<and> JSON_parse (engine W) s = Inr v
           \<longrightarrow> fst (loadLogs W st) = Inr v)
     \<and> snd (loadLogs W st) = st\<lparr>trace := trace st @ [ConsoleWarn, GetItem LOGS_KEY]\<rparr>"
  using assms
  by (auto simp: loadLogs_def loadLogsFromLocal_def getItem_def emit_def JSON_parse_empty
           split: option.splits)

theorem loadLogs_unconfigured_witness:
  "fst (loadLogs (sample_world unreachable_server True) (sample_state JNull Map.empty))
     = Inr (JArr [])
   \<and> JSON_parse sample_engine (str ''[true]'') = Inr (JArr [JBool True])
   \<and> fst (loadLogs (sample_world unreachable_server True)
        (sample_state (JObj [(str ''username'', JStr (str ''octo''))]) [LOGS_KEY \<mapsto> str ''[true]'']))
     = Inr (JArr [JBool True])
   \<and> trace (snd (loadLogs (sample_world unreachable_server True)
        (sample_state (JObj [(str ''username'', JStr (str ''octo''))]) [LOGS_KEY \<mapsto> str ''[true]''])))
     = [ConsoleWarn, GetItem LOGS_KEY]"
proof -
  let ?W = "sample_world unreachable_server True"
  let ?a = "sample_state JNull Map.empty :: nat state"
  let ?b = "sample_state (JObj [(str ''username'', JStr (str ''octo''))])
              [LOGS_KEY \<mapsto> str ''[true]''] :: nat state"
  have ua: "\<not> truthy (engine ?W) (isConfigured (engine ?W) ?a)" by code_simp
  have ub: "\<not> truthy (engine ?W) (isConfigured (engine ?W) ?b)" by code_simp
  have na: "localStorage ?a LOGS_KEY = None" by (simp add: sample_state_def)
  have nb: "localStorage ?b LOGS_KEY = Some (str ''[true]'')" by (simp add: sample_state_def)
  have p: "JSON_parse sample_engine (str ''[true]'') = Inr (JArr [JBool True])" by code_simp
  have e: "engine ?W = sample_engine" by (simp add: sample_world_def)
  have 1: "fst (loadLogs ?W ?a) = Inr (JArr [])"
    using loadLogs_unconfigured [OF ua] na by blast
  have 2: "fst (loadLogs ?W ?b) = Inr (JArr [JBool True])"
    using loadLogs_unconfigured [OF ub] nb p e by metis
  have 3: "trace (snd (loadLogs ?W ?b)) = [ConsoleWarn, GetItem LOGS_KEY]"
    using loadLogs_unconfigured [OF ub, THEN conjunct2, THEN conjunct2]
    by (simp add: sample_state_def)
  show ?thesis using 1 2 3 p by simp
qed

text \<open>
  C8 (fails on the code).  In a configured state \<open>syncToGitHub\<close> should push the
  collection read from the local cache through \<open>saveLogs\<close> and return its boolean.  It
  reads the cache with \<open>loadLogsFromLocal\<close>, outside any \<open>try\<close>: with the malformed text
  \<open>{\<close> under \<open>updateLogs\<close> the SyntaxError of the unguarded parse leaves
  \<open>syncToGitHub\<close>, nothing is pushed and no boolean is returned.  The other parts of the
  claim hold (\<open>sync_unconfigured\<close>, \<open>syncFromGitHub_configured\<close>,
  \<open>syncToGitHub_pushes_cache\<close>).
\<close>

theorem syncToGitHub_throws_on_malformed_cache:
  "truthy sample_engine (isConfigured sample_engine
      (sample_state sample_config [LOGS_KEY \<mapsto> str ''{'']))
   \<and> fst (syncToGitHub (sample_world creating_server True)
          (sample_state sample_config [LOGS_KEY \<mapsto> str ''{''])) = Inl SyntaxError
   \<and> trace (snd (syncToGitHub (sample_world creating_server True)
          (sample_state sample_config [LOGS_KEY \<mapsto> str ''{'']))) = [GetItem LOGS_KEY]"
  by code_simp

text \<open>
  C9.  When the key \<open>github_config\<close> holds a text that is not valid JSON, constructing
  the adapter throws nothing (\<open>loadConfig\<close> returns \<open>false\<close>), the configuration stays
  \<open>null\<close>, \<open>isConfigured()\<close> is falsy, local storage is unchanged, and besides the read of
  the key the only effect is the console error (none for the empty text, which is never
  parsed).
\<close>

theorem loadConfig_malformed:
  assumes "store CONFIG_KEY = Some s" and "JSON_parse (engine W) s = Inl e"
  shows "fst (loadConfig W \<lparr>config = JNull, localStorage = store, trace = []\<rparr>) = False
     \<and> config (new_GitHubStorage W store) = JNull
     \<and> \<not> truthy (engine W) (isConfigured (engine W) (new_GitHubStorage W store))
     \<and> localStorage (new_GitHubStorage W store) = store
     \<and> trace (new_GitHubStorage W store)
         = GetItem CONFIG_KEY # (if s = [] then [] else [ConsoleError])"
  using assms
  by (simp add: new_GitHubStorage_def loadConfig_def getItem_def emit_def isConfigured_def)

theorem loadConfig_malformed_witness:
  "JSON_parse sample_engine (str ''{username:octo}'') = Inl SyntaxError
   \<and> config (new_GitHubStorage (sample_world creating_server True)
        [CONFIG_KEY \<mapsto> str ''{username:octo}'']) = JNull
   \<and> \<not> truthy sample_engine (isConfigured sample_engine
        (new_GitHubStorage (sample_world creating_server True)
           [CONFIG_KEY \<mapsto> str ''{username:octo}'']))
   \<and> trace (new_GitHubStorage (sample_world creating_server True)
        [CONFIG_KEY \<mapsto> str ''{username:octo}'']) = [GetItem CONFIG_KEY, ConsoleError]"
proof -
  let ?W = "sample_world creating_server True"
  have e: "engine ?W = sample_engine" by (simp add: sample_world_def)
  have s: "[CONFIG_KEY \<mapsto> str ''{username:octo}''] CONFIG_KEY = Some (str ''{username:octo}'')"
    by simp
  have p: "JSON_parse sample_engine (str ''{username:octo}'') = Inl SyntaxError" by code_simp
  have n: "str ''{username:octo}'' \<noteq> []" by (simp add: str_def)
  have q: "JSON_parse (engine ?W) (str ''{username:octo}'') = Inl SyntaxError" using p e by simp
  note k = loadConfig_malformed
             [where store = "[CONFIG_KEY \<mapsto> str ''{username:octo}'']"
                and s = "str ''{username:octo}''" and W = ?W, OF s q]
  show ?thesis using k p n e by simp
qed

text \<open>
  C10.  In a configured state, when the update request that \<open>saveLogs\<close> sends gets a
  success response, \<open>saveLogs\<close> returns \<open>true\<close> whether or not local storage has room
  for the mirror write; without room local storage is left as it was.  The first three
  hypotheses say that the request is built: where \<open>getApiUrl\<close> or \<open>getHeaders\<close> throws
  no update request is sent (\<open>saveLogs_try_unbuilt\<close>), and the encoded content always
  exists (\<open>encodedContent_total\<close>).
\<close>

theorem saveLogs_put_success:
  assumes "getApiUrl (engine W) st = Inr u" and "getHeaders (engine W) st = Inr h"
    and "encodedContent (engine W) logs = Inr enc"
    and "server W \<lparr>request_method = PUT, url = u, headers = h,
            body = Some (JSON_stringify (engine W)
              (requestBody W st (fst (saveLogs_sha W st)) enc))\<rparr> = Response status payload"
    and "ok status"
  shows "truthy (engine W) (isConfigured (engine W) st)
     \<and> fst (saveLogs W logs st) = True
     \<and> (\<not> has_room W (localStorage st) LOGS_KEY (JSON_stringify (engine W) logs)
          \<longrightarrow> localStorage (snd (saveLogs W logs st)) = localStorage st)"
proof -
  have c: "truthy (engine W) (isConfigured (engine W) st)"
    using getApiUrl_configured [OF assms(1)] .
  obtain st2 where t: "saveLogs_try W logs st = (Inr True, st2)"
    using assms(4,5)
    by (simp add: saveLogs_try_put [OF assms(1-3)] fetch_def saveLogsToLocal_result)
  from saveLogs_try_returns_frame [OF t] c t show ?thesis
    by (simp add: saveLogs_def)
qed

theorem saveLogs_put_success_witness:
  "ok 201
   \<and> \<not> has_room (sample_world creating_server False) Map.empty LOGS_KEY
         (JSON_stringify sample_engine sample_logs)
   \<and> fst (saveLogs (sample_world creating_server False) sample_logs
          (sample_state sample_config Map.empty)) = True
   \<and> localStorage (snd (saveLogs (sample_world creating_server False) sample_logs
          (sample_state sample_config Map.empty))) LOGS_KEY = None"
proof -
  let ?W = "sample_world creating_server False"
  let ?st = "sample_state sample_config Map.empty :: nat state"
  have u: "getApiUrl (engine ?W) ?st = Inr sample_url" by code_simp
  have h: "getHeaders (engine ?W) ?st = Inr sample_headers" by code_simp
  have c: "encodedContent (engine ?W) sample_logs
             = Inr (b64_encode (unescape (projr (encodeURIComponent (JSON_stringify2 sample_engine sample_logs)))))"
    by code_simp
  have r: "server ?W \<lparr>request_method = PUT, url = sample_url, headers = sample_headers,
            body = Some (JSON_stringify (engine ?W)
              (requestBody ?W ?st (fst (saveLogs_sha ?W ?st))
                 (b64_encode (unescape (projr (encodeURIComponent (JSON_stringify2 sample_engine sample_logs))))))) \<rparr>
           = Response 201 (Inr (JObj []))"
    by (simp add: sample_world_def creating_server_def)
  have k: "ok 201" by (simp add: ok_def)
  have e: "engine ?W = sample_engine" by (simp add: sample_world_def)
  have m: "localStorage ?st = Map.empty" by (simp add: sample_state_def)
  have n: "\<not> has_room ?W Map.empty LOGS_KEY (JSON_stringify sample_engine sample_logs)"
    by (simp add: sample_world_def)
  note t = saveLogs_put_success [OF u h c r k]
  have 1: "fst (saveLogs ?W sample_logs ?st) = True" using t by blast
  have 2: "localStorage (snd (saveLogs ?W sample_logs ?st)) LOGS_KEY = None"
    using t [THEN conjunct2, THEN conjunct2] e m n by simp
  show ?thesis using k n 1 2 by blast
qed

end
